theory Spec2Isabelle
  imports Main
begin

section \<open>The controller command of Watchtower: data\<close>

text \<open>
  The theory embeds the controller command (\<open>Command.Run\<close>,
  \<open>Command.ParseFlagsAndConfig\<close>, \<open>Command.Start\<close>, \<open>Command.WaitForInterrupt\<close>,
  \<open>Command.Reload\<close>) and the \<open>Controller\<close> object it owns. Everything the command calls
  outside these two files (flag parsing, the configuration loader, the stages of
  \<open>base.Server\<close>, \<open>mlock\<close>, the listener subsystem) is an input of the model: its outcome is
  given by an environment record or carried by the event that triggers it.
\<close>

subsection \<open>Errors and user interface\<close>

text \<open>
  An error value. \<open>Err m\<close> is an error of an external collaborator with message \<open>m\<close>;
  \<open>Wrapped p e\<close> is \<open>fmt.Errorf(p + ": %w", e)\<close>; the remaining constructors are the
  messages the command formats itself (the constructor's arguments are the values
  formatted into the message); \<open>MultiError es\<close> is a non-nil \<open>*multierror.Error\<close> holding
  the errors \<open>es\<close>.
\<close>

datatype error =
    Err string
  | Wrapped string error
  | UnknownListenerPurpose string
  | InvalidListenerPurposeSet "string list"
  | TLSCannotBeDisabled
  | NoClusterListener
  | MustSpecifyConfig
  | MultiError "error list"

text \<open>What \<open>c.UI\<close> has been asked to print, oldest first.\<close>

datatype ui_msg = UI_Output string | UI_Error error | UI_Warn string

subsection \<open>Configuration\<close>

text \<open>
  \<open>Config.Listeners\<close> holds pointers to listener blocks, so an assignment to a field of
  the loop variable in \<open>for _, l := range c.Config.Listeners\<close> writes into the
  configuration (the loop of \<open>ParseFlagsAndConfig\<close> that overrides \<open>l.Address\<close> has no other
  effect). The model therefore returns the listener list as the loops leave it.
\<close>

record listener =
  Address :: string
  Purpose :: "string list"
  TLSDisable :: bool

record config =
  Listeners :: "listener list"
  LogLevel :: string
  LogFormat :: string
  DisableMlock :: bool
  PidFile :: string
  DefaultMaxRequestDuration :: int

section \<open>Listener purpose validation (Run, the loop over the listeners)\<close>

text \<open>\<open>strutil.StrListContains\<close>: linear search for an equal string.\<close>

fun StrListContains :: "string list \<Rightarrow> string \<Rightarrow> bool" where
  "StrListContains [] needle = False"
| "StrListContains (item # haystack) needle =
     (if item = needle then True else StrListContains haystack needle)"

text \<open>
  The body of \<open>case 2\<close> of the switch on \<open>len(lnConfig.Purpose)\<close>, which \<open>case 0\<close> falls
  through to. The flags are the pair \<open>(foundCluster, foundAPI)\<close>; \<open>Inl\<close> is the error printed
  before \<open>return 1\<close>.
\<close>

definition purpose_case_2 :: "listener \<Rightarrow> error + bool \<times> bool" where
  "purpose_case_2 lnConfig =
     (if \<not> StrListContains (Purpose lnConfig) ''api''
         \<or> \<not> StrListContains (Purpose lnConfig) ''cluster''
      then Inl (InvalidListenerPurposeSet (Purpose lnConfig))
      else if TLSDisable lnConfig then Inl TLSCannotBeDisabled
      else Inr (True, True))"

text \<open>
  One iteration of the loop: the listener as the iteration leaves it (\<open>case 0\<close> assigns
  its purpose list), and either the error or the new flags. A purpose list of three or more
  entries matches no case of the switch.
\<close>

definition check_listener ::
  "listener \<Rightarrow> bool \<times> bool \<Rightarrow> listener \<times> (error + bool \<times> bool)" where
  "check_listener lnConfig found =
     (if length (Purpose lnConfig) = 1 then
        (if Purpose lnConfig ! 0 = ''cluster'' then (lnConfig, Inr (True, snd found))
         else if Purpose lnConfig ! 0 = ''api'' then (lnConfig, Inr (fst found, True))
         else (lnConfig, Inl (UnknownListenerPurpose (Purpose lnConfig ! 0))))
      else if length (Purpose lnConfig) = 0 then
        (let ln' = lnConfig\<lparr>Purpose := [''api'', ''cluster'']\<rparr>
         in (ln', purpose_case_2 ln'))
      else if length (Purpose lnConfig) = 2 then (lnConfig, purpose_case_2 lnConfig)
      else (lnConfig, Inr found))"

text \<open>
  The loop. It stops at the first error; the listeners after the failing one are left
  as they were.
\<close>

fun check_listeners ::
  "listener list \<Rightarrow> bool \<times> bool \<Rightarrow> listener list \<times> (error + bool \<times> bool)" where
  "check_listeners [] found = ([], Inr found)"
| "check_listeners (lnConfig # rest) found =
     (case check_listener lnConfig found of
        (ln', Inl e) \<Rightarrow> (ln' # rest, Inl e)
      | (ln', Inr found') \<Rightarrow>
          (case check_listeners rest found' of (rest', r) \<Rightarrow> (ln' # rest', r)))"

text \<open>
  The whole check of \<open>Run\<close>: both flags start false, the loop runs, and an API listener
  with no cluster listener is an error. The result is the listener list as left by the loop
  and the error printed (\<open>Some\<close>, followed by \<open>return 1\<close>) or \<open>None\<close> when \<open>Run\<close> goes on to
  \<open>SetupListeners\<close>.
\<close>

definition validate_listeners :: "listener list \<Rightarrow> listener list \<times> error option" where
  "validate_listeners lns =
     (case check_listeners lns (False, False) of
        (lns', Inl e) \<Rightarrow> (lns', Some e)
      | (lns', Inr (foundCluster, foundAPI)) \<Rightarrow>
          (if foundAPI \<and> \<not> foundCluster then (lns', Some NoClusterListener)
           else (lns', None)))"

section \<open>The server, the controller and the command\<close>

subsection \<open>Logging\<close>

text \<open>\<open>hclog.Level\<close>, the levels the reload handler can select.\<close>

datatype hclog_level = hclog_Trace | hclog_Debug | hclog_Info | hclog_Warn | hclog_Error

text \<open>
  A call made on \<open>c.Logger\<close>: the method, the message and the key/value arguments. The
  model records the calls; it does not model which of them the sink prints.
\<close>

datatype log_arg = S string | E error

datatype log_entry =
    Log_Error string "(string \<times> log_arg) list"
  | Log_Info string "(string \<times> log_arg) list"

subsection \<open>The fields of \<open>base.Server\<close> that the command and the controller use\<close>

text \<open>
  A reload callback is a \<open>func() error\<close> with effects outside the command: a function on
  the state \<open>'w\<close> of that outside world, returning the error (\<open>None\<close> is \<open>nil\<close>) and the new
  state. A \<open>nil\<close> function value in a slice of the registry is \<open>None\<close>.
\<close>

type_synonym 'w reload_func = "'w \<Rightarrow> error option \<times> 'w"

text \<open>The functions appended to \<open>ShutdownFuncs\<close>, by identity.\<close>

datatype shutdown_func = DestroyDevDatabase | ExternalShutdownFunc string

text \<open>
  \<open>ReloadFuncs\<close> is a Go map from resource key to a slice of callbacks. \<open>Logger\<close> is \<open>None\<close>
  when the logger is \<open>nil\<close>, else the calls made on it. \<open>AllLoggers\<close> gives the level of
  each registered logger. \<open>controller.Config\<close> embeds the server, so the controller reads
  and writes \<open>Logger\<close>, \<open>AllLoggers\<close> and \<open>SecureRandomReader\<close> of this record.
\<close>

record 'w server =
  CombineLogs :: bool
  Logger :: "log_entry list option"
  AllLoggers :: "hclog_level list"
  SecureRandomReader :: "string option"
  ShutdownFuncs :: "shutdown_func list"
  ReloadFuncs :: "string \<rightharpoonup> 'w reload_func option list"

subsection \<open>The controller\<close>

text \<open>
  The controller keeps the configuration it was built from. \<open>starts\<close> and \<open>stops\<close> count
  the calls of \<open>startListeners\<close> and \<open>stopListeners\<close>, the listener subsystem's bring-up and
  teardown, which are outside the two files.
\<close>

record controller =
  RawConfig :: config
  starts :: nat
  stops :: nat

text \<open>
  \<open>controller.New\<close>. \<open>rawConfig\<close> is \<open>conf.RawConfig\<close>, a pointer; \<open>lockMemory\<close> is the
  result of \<open>mlock.LockMemory()\<close>, called only when the configuration does not disable
  mlock. The first component of the result is \<open>None\<close> when \<open>New\<close> panics: it reads
  \<open>conf.RawConfig.DisableMlock\<close> after it has registered the logger and set the random
  reader, so the server is returned as these two steps leave it.
\<close>

definition New ::
  "error option \<Rightarrow> config option \<Rightarrow> 'w server \<Rightarrow> (error + controller) option \<times> 'w server" where
  "New lockMemory rawConfig conf =
     (let conf = (if Logger conf = None
                  then conf\<lparr>AllLoggers := AllLoggers conf @ [hclog_Trace]\<rparr> else conf);
          conf = (if SecureRandomReader conf = None
                  then conf\<lparr>SecureRandomReader := Some ''crypto/rand.Reader''\<rparr> else conf)
      in case rawConfig of
           None \<Rightarrow> (None, conf)
         | Some cfg \<Rightarrow>
             if \<not> DisableMlock cfg \<and> lockMemory \<noteq> None
             then (Some (Inl (Wrapped ''Failed to lock memory'' (the lockMemory))), conf)
             else (Some (Inr \<lparr>RawConfig = cfg, starts = 0, stops = 0\<rparr>), conf))"

text \<open>\<open>Controller.Start\<close> and \<open>Controller.Shutdown\<close>; the argument is the result of the
  listener subsystem's call.\<close>

definition Controller_Start :: "error option \<Rightarrow> controller \<Rightarrow> error option \<times> controller" where
  "Controller_Start startListeners ctl =
     (case startListeners of
        Some err \<Rightarrow> (Some (Wrapped ''error starting controller listeners'' err),
                     ctl\<lparr>starts := starts ctl + 1\<rparr>)
      | None \<Rightarrow> (None, ctl\<lparr>starts := starts ctl + 1\<rparr>))"

definition Controller_Shutdown :: "error option \<Rightarrow> controller \<Rightarrow> error option \<times> controller" where
  "Controller_Shutdown stopListeners ctl =
     (case stopListeners of
        Some err \<Rightarrow> (Some (Wrapped ''error stopping controller listeners'' err),
                     ctl\<lparr>stops := stops ctl + 1\<rparr>)
      | None \<Rightarrow> (None, ctl\<lparr>stops := stops ctl + 1\<rparr>))"

text \<open>\<open>Controller.SetLogLevel\<close>: every logger of \<open>conf.AllLoggers\<close> gets the level.\<close>

definition SetLogLevel :: "hclog_level \<Rightarrow> 'w server \<Rightarrow> 'w server" where
  "SetLogLevel level conf = conf\<lparr>AllLoggers := map (\<lambda>logger. level) (AllLoggers conf)\<rparr>"

subsection \<open>The command\<close>

record flag_values =
  flagConfig :: string
  flagLogLevel :: string
  flagLogFormat :: string
  flagDev :: bool
  flagDevAdminPassword :: string
  flagDevControllerAPIListenAddr :: string
  flagDevControllerClusterListenAddr :: string
  flagCombineLogs :: bool

text \<open>
  The command. \<open>cleanupGuard\<close> is the \<open>done\<close> flag of the \<open>sync.Once\<close>; \<open>Config\<close> and
  \<open>controller\<close> are pointers (\<open>None\<close> is \<open>nil\<close>). \<open>ReloadedCh\<close> counts the messages the command
  has sent on that channel, \<open>UI\<close> is what it printed, \<open>globals_DefaultMaxRequestDuration\<close>
  is the package variable \<open>Run\<close> assigns.

  Three fields are observations, not fields of the Go struct: \<open>world\<close> is the state the
  reload callbacks act on, \<open>reload_calls\<close> lists the callbacks invoked (resource key, index
  in the key's slice, error returned), \<open>shutdown_run\<close> lists the shutdown functions executed.
\<close>

record 'w command =
  flags :: flag_values
  cleanupGuard :: bool
  Config :: "config option"
  controller :: "controller option"
  Server :: "'w server"
  UI :: "ui_msg list"
  ReloadedCh :: nat
  globals_DefaultMaxRequestDuration :: int
  world :: 'w
  reload_calls :: "(string \<times> nat \<times> error option) list"
  shutdown_run :: "shutdown_func list"

definition ui_Output :: "string \<Rightarrow> 'w command \<Rightarrow> 'w command" where
  "ui_Output m c = c\<lparr>UI := UI c @ [UI_Output m]\<rparr>"

definition ui_Error :: "error \<Rightarrow> 'w command \<Rightarrow> 'w command" where
  "ui_Error e c = c\<lparr>UI := UI c @ [UI_Error e]\<rparr>"

definition ui_Warn :: "string \<Rightarrow> 'w command \<Rightarrow> 'w command" where
  "ui_Warn m c = c\<lparr>UI := UI c @ [UI_Warn m]\<rparr>"

text \<open>A call on \<open>c.Logger\<close>: \<open>None\<close> when the logger is \<open>nil\<close> (the call panics).\<close>

definition logger_call :: "log_entry \<Rightarrow> 'w command \<Rightarrow> 'w command option" where
  "logger_call entry c =
     (case Logger (Server c) of
        None \<Rightarrow> None
      | Some entries \<Rightarrow> Some (c\<lparr>Server := (Server c)\<lparr>Logger := Some (entries @ [entry])\<rparr>\<rparr>))"

text \<open>How a call of the command ends: \<open>return n\<close>, or a panic (a \<open>nil\<close> dereference).\<close>

datatype outcome = Exit int | Panic

section \<open>Reload\<close>

text \<open>\<open>strings.HasPrefix\<close>.\<close>

definition HasPrefix :: "string \<Rightarrow> string \<Rightarrow> bool" where
  "HasPrefix s pre = (length pre \<le> length s \<and> take (length pre) s = pre)"

text \<open>
  \<open>multierror.Append\<close> of one error that is not itself a multierror (the error appended
  by \<open>Reload\<close> is made by \<open>fmt.Errorf\<close>), and \<open>ErrorOrNil\<close>. A \<open>*multierror.Error\<close> is \<open>None\<close>
  when \<open>nil\<close>, else the list of its errors.
\<close>

definition multierror_Append :: "error list option \<Rightarrow> error \<Rightarrow> error list option" where
  "multierror_Append m err = (case m of None \<Rightarrow> Some [err] | Some errs \<Rightarrow> Some (errs @ [err]))"

definition ErrorOrNil :: "error list option \<Rightarrow> error option" where
  "ErrorOrNil m =
     (case m of None \<Rightarrow> None
      | Some errs \<Rightarrow> if length errs = 0 then None else Some (MultiError errs))"

text \<open>
  The inner loop of \<open>Reload\<close> over the slice \<open>relFuncs\<close> of key \<open>k\<close>, from index \<open>i\<close> on. The
  state is \<open>reloadErrors\<close>, the outside world and the list of the calls made.
\<close>

type_synonym 'w reload_state = "error list option \<times> 'w \<times> (string \<times> nat \<times> error option) list"

fun run_relFuncs ::
  "string \<Rightarrow> nat \<Rightarrow> 'w reload_func option list \<Rightarrow> 'w reload_state \<Rightarrow> 'w reload_state" where
  "run_relFuncs k i [] st = st"
| "run_relFuncs k i (relFunc # relFuncs) (reloadErrors, w, calls) =
     (case relFunc of
        None \<Rightarrow> run_relFuncs k (Suc i) relFuncs (reloadErrors, w, calls)
      | Some f \<Rightarrow>
          (case f w of
             (None, w') \<Rightarrow>
               run_relFuncs k (Suc i) relFuncs (reloadErrors, w', calls @ [(k, i, None)])
           | (Some err, w') \<Rightarrow>
               run_relFuncs k (Suc i) relFuncs
                 (multierror_Append reloadErrors
                    (Wrapped ''error encountered reloading listener'' err),
                  w', calls @ [(k, i, Some err)])))"

text \<open>
  The outer loop, \<open>for k, relFuncs := range c.ReloadFuncs\<close>. Go does not specify the order
  in which \<open>range\<close> visits the keys of a map, and it may differ from one loop to the next:
  the order \<open>ks\<close> of this visit is an input. It is an order of the map \<open>m\<close> when
  \<open>map_order m ks\<close>.
\<close>

fun range_ReloadFuncs ::
  "(string \<rightharpoonup> 'w reload_func option list) \<Rightarrow> string list \<Rightarrow> 'w reload_state \<Rightarrow> 'w reload_state" where
  "range_ReloadFuncs m [] st = st"
| "range_ReloadFuncs m (k # ks) st =
     (case m k of
        None \<Rightarrow> range_ReloadFuncs m ks st
      | Some relFuncs \<Rightarrow>
          if HasPrefix k ''listener|''
          then range_ReloadFuncs m ks (run_relFuncs k 0 relFuncs st)
          else range_ReloadFuncs m ks st)"

definition map_order :: "('k \<rightharpoonup> 'v) \<Rightarrow> 'k list \<Rightarrow> bool" where
  "map_order m ks = (distinct ks \<and> set ks = dom m)"

text \<open>
  \<open>Reload\<close>. \<open>ks\<close> is the order of the map visit; \<open>ready\<close> says whether the send on
  \<open>ReloadedCh\<close> can proceed (else the \<open>select\<close> takes its \<open>default\<close>).
\<close>

definition Reload :: "string list \<Rightarrow> bool \<Rightarrow> 'w command \<Rightarrow> error option \<times> 'w command" where
  "Reload ks ready c =
     (case range_ReloadFuncs (ReloadFuncs (Server c)) ks (None, world c, reload_calls c) of
        (reloadErrors, w, calls) \<Rightarrow>
          (ErrorOrNil reloadErrors,
           c\<lparr>ReloadedCh := (if ready then ReloadedCh c + 1 else ReloadedCh c),
             world := w, reload_calls := calls\<rparr>))"

section \<open>The event loop\<close>

text \<open>
  \<open>strings.TrimSpace\<close>. A Go string is a sequence of bytes read as UTF-8, and a
  \<open>char\<close> is one byte. \<open>unicode.IsSpace\<close> holds of the six ASCII characters of
  \<open>asciiSpace\<close>, of U+0085 and U+00A0 (two bytes each), and of U+1680, U+2000 to U+200A,
  U+2028, U+2029, U+202F, U+205F and U+3000 (three bytes each). A rune at the start or at
  the end of a string is one of these exactly when the string starts or ends with the
  rune's encoding: an invalid or overlong encoding decodes to U+FFFD, which is not white
  space.
\<close>

definition asciiSpace :: "char \<Rightarrow> bool" where
  "asciiSpace a = (a \<in> set [CHR 0x09, CHR 0x0A, CHR 0x0B, CHR 0x0C, CHR 0x0D, CHR 0x20])"

definition space2 :: "char \<Rightarrow> char \<Rightarrow> bool" where
  "space2 a b = (a = CHR 0xC2 \<and> (b = CHR 0x85 \<or> b = CHR 0xA0))"

definition space3 :: "char \<Rightarrow> char \<Rightarrow> char \<Rightarrow> bool" where
  "space3 a b c =
     (a = CHR 0xE1 \<and> b = CHR 0x9A \<and> c = CHR 0x80 \<or>
      a = CHR 0xE2 \<and> b = CHR 0x80 \<and>
        c \<in> set [CHR 0x80, CHR 0x81, CHR 0x82, CHR 0x83, CHR 0x84, CHR 0x85, CHR 0x86,
                 CHR 0x87, CHR 0x88, CHR 0x89, CHR 0x8A, CHR 0xA8, CHR 0xA9, CHR 0xAF] \<or>
      a = CHR 0xE2 \<and> b = CHR 0x81 \<and> c = CHR 0x9F \<or>
      a = CHR 0xE3 \<and> b = CHR 0x80 \<and> c = CHR 0x80)"

text \<open>
  Removing the white space at the start, given the tests for a white space rune of one,
  two and three bytes.
\<close>

fun trim_left ::
  "(char \<Rightarrow> bool) \<Rightarrow> (char \<Rightarrow> char \<Rightarrow> bool) \<Rightarrow> (char \<Rightarrow> char \<Rightarrow> char \<Rightarrow> bool) \<Rightarrow>
   string \<Rightarrow> string" where
  "trim_left s1 s2 s3 (a # b # c # s) =
     (if s1 a then trim_left s1 s2 s3 (b # c # s)
      else if s2 a b then trim_left s1 s2 s3 (c # s)
      else if s3 a b c then trim_left s1 s2 s3 s
      else a # b # c # s)"
| "trim_left s1 s2 s3 [a, b] =
     (if s1 a then trim_left s1 s2 s3 [b] else if s2 a b then [] else [a, b])"
| "trim_left s1 s2 s3 [a] = (if s1 a then [] else [a])"
| "trim_left s1 s2 s3 [] = []"

text \<open>The white space at the end is the white space at the start of the reversed string,
  with the bytes of each rune reversed.\<close>

definition TrimSpace :: "string \<Rightarrow> string" where
  "TrimSpace s =
     rev (trim_left asciiSpace (\<lambda>a b. space2 b a) (\<lambda>a b c. space3 c b a)
            (rev (trim_left asciiSpace space2 space3 s)))"

text \<open>
  \<open>strings.ToLower\<close>, as far as the switch on its result can tell. The switch compares
  the result with ASCII words only. The result is ASCII exactly when every rune of the
  argument has an ASCII lower case; these runes are the ASCII characters, U+0130 (bytes C4
  B0), whose lower case is \<open>i\<close>, and U+212A (bytes E2 84 AA), whose lower case is \<open>k\<close>. The
  model returns \<open>Some\<close> the result when it is ASCII, and \<open>None\<close> when it holds a rune outside
  ASCII (the lower case of another rune, or U+FFFD for an invalid byte): such a result is
  different from every word of the switch.
\<close>

definition toLower :: "char \<Rightarrow> char" where
  "toLower ch =
     (case map_of (zip ''ABCDEFGHIJKLMNOPQRSTUVWXYZ'' ''abcdefghijklmnopqrstuvwxyz'') ch of
        None \<Rightarrow> ch | Some l \<Rightarrow> l)"

definition isASCII :: "char \<Rightarrow> bool" where
  "isASCII a = (of_char a < (128 :: nat))"

fun ToLower :: "string \<Rightarrow> string option" where
  "ToLower (a # b # c # s) =
     (if isASCII a then map_option ((#) (toLower a)) (ToLower (b # c # s))
      else if a = CHR 0xC4 \<and> b = CHR 0xB0 then map_option ((#) CHR ''i'') (ToLower (c # s))
      else if a = CHR 0xE2 \<and> b = CHR 0x84 \<and> c = CHR 0xAA
        then map_option ((#) CHR ''k'') (ToLower s)
      else None)"
| "ToLower [a, b] =
     (if isASCII a then map_option ((#) (toLower a)) (ToLower [b])
      else if a = CHR 0xC4 \<and> b = CHR 0xB0 then Some ''i''
      else None)"
| "ToLower [a] = (if isASCII a then Some [toLower a] else None)"
| "ToLower [] = Some []"

text \<open>The switch on \<open>configLogLevel\<close>; \<open>None\<close> is its \<open>default\<close> case.\<close>

definition parse_log_level :: "string \<Rightarrow> hclog_level option" where
  "parse_log_level newLogLevel =
     (let configLogLevel = ToLower (TrimSpace newLogLevel)
      in if configLogLevel = Some ''trace'' then Some hclog_Trace
         else if configLogLevel = Some ''debug'' then Some hclog_Debug
         else if configLogLevel = Some ''notice'' \<or> configLogLevel = Some ''info'' \<or>
                 configLogLevel = Some []
           then Some hclog_Info
         else if configLogLevel = Some ''warn'' \<or> configLogLevel = Some ''warning''
           then Some hclog_Warn
         else if configLogLevel = Some ''err'' \<or> configLogLevel = Some ''error''
           then Some hclog_Error
         else None)"

text \<open>
  What the environment supplies when a reload trigger is handled: the two results of
  \<open>config.LoadFile(c.flagConfig)\<close>, the order of the map visit in \<open>Reload\<close>, and whether
  \<open>ReloadedCh\<close> can take a message.
\<close>

record reload_env =
  loadFile :: "config option \<times> error option"
  visit_order :: "string list"
  ReloadedCh_ready :: bool

text \<open>
  An event is one case the \<open>select\<close> of the loop takes. \<open>ShutdownCh r\<close> is a receive from
  \<open>c.ShutdownCh\<close> (a value, or the channel's closure), with \<open>r\<close> what \<open>stopListeners\<close>
  returns; \<open>SigUSR2Ch stack\<close> carries the text \<open>runtime.Stack\<close> would write without a bound.
\<close>

datatype event = ShutdownCh "error option" | SighupCh reload_env | SigUSR2Ch string

text \<open>
  The handlers return \<open>Inr\<close> the command after the case, or \<open>Inl\<close> the command at the point
  of a panic: a call on a \<open>nil\<close> logger, \<open>SetLogLevel\<close> on a \<open>nil\<close> controller (it reads
  \<open>c.conf\<close>), \<open>Shutdown\<close> on a \<open>nil\<close> controller (it reaches the listeners of the receiver).
\<close>

definition log_or_panic :: "log_entry \<Rightarrow> 'w command \<Rightarrow> 'w command + 'w command" where
  "log_or_panic entry c = (case logger_call entry c of None \<Rightarrow> Inl c | Some c' \<Rightarrow> Inr c')"

definition handle_shutdown :: "error option \<Rightarrow> 'w command \<Rightarrow> 'w command + 'w command" where
  "handle_shutdown stopListeners c =
     (let c = ui_Output ''==> Watchtower controller shutdown triggered'' c
      in case controller c of
           None \<Rightarrow> Inl c
         | Some ctl \<Rightarrow>
             (case Controller_Shutdown stopListeners ctl of
                (Some err, ctl') \<Rightarrow>
                  Inr (ui_Error (Wrapped ''Error with controller shutdown'' err)
                         (c\<lparr>controller := Some ctl'\<rparr>))
              | (None, ctl') \<Rightarrow> Inr (c\<lparr>controller := Some ctl'\<rparr>)))"

text \<open>The part of the reload case before the label \<open>RUNRELOADFUNCS\<close>.\<close>

definition reload_config ::
  "config option \<times> error option \<Rightarrow> 'w command \<Rightarrow> 'w command + 'w command" where
  "reload_config loaded c =
     (if flagConfig (flags c) = [] then Inr c
      else case loaded of
        (newConf, Some err) \<Rightarrow>
          log_or_panic (Log_Error ''could not reload config''
                          [(''path'', S (flagConfig (flags c))), (''error'', E err)]) c
      | (None, None) \<Rightarrow> log_or_panic (Log_Error ''no config found at reload time'' []) c
      | (Some newConf, None) \<Rightarrow>
          if LogLevel newConf \<noteq> [] then
            (case parse_log_level (LogLevel newConf) of
               None \<Rightarrow>
                 log_or_panic (Log_Error ''unknown log level found on reload''
                                 [(''level'', S (LogLevel newConf))]) c
             | Some level \<Rightarrow>
                 (case controller c of
                    None \<Rightarrow> Inl c
                  | Some ctl \<Rightarrow> Inr (c\<lparr>Server := SetLogLevel level (Server c)\<rparr>)))
          else Inr c)"

definition handle_sighup :: "reload_env \<Rightarrow> 'w command \<Rightarrow> 'w command + 'w command" where
  "handle_sighup env c =
     (case reload_config (loadFile env)
             (ui_Output ''==> Watchtower controller reload triggered'' c) of
        Inl c' \<Rightarrow> Inl c'
      | Inr c' \<Rightarrow>
          (case Reload (visit_order env) (ReloadedCh_ready env) c' of
             (Some err, c'') \<Rightarrow>
               Inr (ui_Error (Wrapped ''Error(s) were encountered during controller reload'' err) c'')
           | (None, c'') \<Rightarrow> Inr c''))"

definition handle_sigusr2 :: "string \<Rightarrow> 'w command \<Rightarrow> 'w command + 'w command" where
  "handle_sigusr2 stack c =
     log_or_panic (Log_Info ''goroutine trace'' [(''stack'', S (take (32 * 1024 * 1024) stack))]) c"

text \<open>
  \<open>WaitForInterrupt\<close> on the events the \<open>select\<close> takes, in order. The result is \<open>None\<close> when
  the events end before the loop does: the loop blocks in \<open>select\<close> and the call does not
  return. Otherwise it is how the call ends, the command then, and the events not taken.
\<close>

fun WaitForInterrupt ::
  "'w command \<Rightarrow> event list \<Rightarrow> (outcome \<times> 'w command \<times> event list) option" where
  "WaitForInterrupt c [] = None"
| "WaitForInterrupt c (ShutdownCh r # evs) =
     (case handle_shutdown r c of
        Inl c' \<Rightarrow> Some (Panic, c', evs)
      | Inr c' \<Rightarrow> Some (Exit 0, c', evs))"
| "WaitForInterrupt c (SighupCh env # evs) =
     (case handle_sighup env c of
        Inl c' \<Rightarrow> Some (Panic, c', evs)
      | Inr c' \<Rightarrow> WaitForInterrupt c' evs)"
| "WaitForInterrupt c (SigUSR2Ch stack # evs) =
     (case handle_sigusr2 stack c of
        Inl c' \<Rightarrow> Some (Panic, c', evs)
      | Inr c' \<Rightarrow> WaitForInterrupt c' evs)"

section \<open>Startup: ParseFlagsAndConfig, Start and Run\<close>

text \<open>
  The outcomes of everything \<open>Run\<close> calls outside the two files. A stage of \<open>base.Server\<close>
  (\<open>SetupLogging\<close>, \<open>SetupMetrics\<close>, \<open>SetupKMSes\<close>, \<open>SetupListeners\<close>, \<open>StorePidFile\<close>,
  \<open>CreateDevDatabase\<close>) is a method of the server: given the flags and the configuration it
  returns its error and the server as it leaves it (it may set the logger and register
  shutdown functions and reload callbacks). \<open>env_Parse\<close> is \<open>f.Parse(args)\<close>: the flag
  values after the call and its error. \<open>env_events\<close> are the events the loop will take.
\<close>

type_synonym 'w stage = "flag_values \<Rightarrow> config \<Rightarrow> 'w server \<Rightarrow> error option \<times> 'w server"

record 'w run_env =
  env_NewServer :: "'w server"
  env_Parse :: "string list \<Rightarrow> flag_values \<Rightarrow> flag_values \<times> error option"
  env_LoadFile :: "string \<Rightarrow> config option \<times> error option"
  env_DevController :: "config option \<times> error option"
  env_SetupLogging :: "'w stage"
  env_SetupMetrics :: "'w stage"
  env_SetupKMSes :: "'w stage"
  env_mlock_Supported :: bool
  env_SetupListeners :: "'w stage"
  env_StorePidFile :: "'w stage"
  env_CreateDevDatabase :: "'w stage"
  env_LockMemory :: "error option"
  env_startListeners :: "error option"
  env_stopListeners :: "error option"
  env_events :: "event list"

definition run_stage :: "'w stage \<Rightarrow> config \<Rightarrow> 'w command \<Rightarrow> error option \<times> 'w command" where
  "run_stage stage cfg c =
     (case stage (flags c) cfg (Server c) of (err, srv) \<Rightarrow> (err, c\<lparr>Server := srv\<rparr>))"

text \<open>
  The body of the loop over the listeners of the development configuration: a listener
  with exactly one purpose, \<open>api\<close> or \<open>cluster\<close>, takes the address of the matching flag
  when that flag is not empty.
\<close>

definition dev_listen_address :: "flag_values \<Rightarrow> listener \<Rightarrow> listener" where
  "dev_listen_address fl l =
     (if length (Purpose l) \<noteq> 1 then l
      else if Purpose l ! 0 = ''api'' then
        (if flagDevControllerAPIListenAddr fl \<noteq> []
         then l\<lparr>Address := flagDevControllerAPIListenAddr fl\<rparr> else l)
      else if Purpose l ! 0 = ''cluster'' then
        (if flagDevControllerClusterListenAddr fl \<noteq> []
         then l\<lparr>Address := flagDevControllerClusterListenAddr fl\<rparr> else l)
      else l)"

definition admin_password_warning :: string where
  "admin_password_warning =
     ''You cannot specify a custom admin password outside of dev mode. Your request has been ignored.''"

text \<open>
  \<open>ParseFlagsAndConfig\<close>: the integer returned and the command. In development mode a
  \<open>nil\<close> configuration returned without an error panics in the loop header.
\<close>

definition ParseFlagsAndConfig ::
  "'w run_env \<Rightarrow> string list \<Rightarrow> 'w command \<Rightarrow> 'w command + int \<times> 'w command" where
  "ParseFlagsAndConfig env args c =
     (case env_Parse env args (flags c) of
        (fl, Some err) \<Rightarrow> Inr (1, ui_Error err (c\<lparr>flags := fl\<rparr>))
      | (fl, None) \<Rightarrow>
          (let c = c\<lparr>flags := fl\<rparr> in
           if \<not> flagDev (flags c) then
             (if length (flagConfig (flags c)) = 0
              then Inr (1, ui_Error MustSpecifyConfig c)
              else
                (let c = (if flagDevAdminPassword (flags c) \<noteq> []
                          then (ui_Warn admin_password_warning c)
                                 \<lparr>flags := (flags c)\<lparr>flagDevAdminPassword := []\<rparr>\<rparr>
                          else c)
                 in case env_LoadFile env (flagConfig (flags c)) of
                      (cfg, Some err) \<Rightarrow>
                        Inr (1, ui_Error (Wrapped ''Error parsing config'' err) (c\<lparr>Config := cfg\<rparr>))
                    | (cfg, None) \<Rightarrow> Inr (0, c\<lparr>Config := cfg\<rparr>)))
           else
             (case env_DevController env of
                (cfg, Some err) \<Rightarrow>
                  Inr (1, ui_Error (Wrapped ''Error creating dev config'' err) (c\<lparr>Config := cfg\<rparr>))
              | (None, None) \<Rightarrow> Inl (c\<lparr>Config := None\<rparr>)
              | (Some cfg, None) \<Rightarrow>
                  Inr (0, c\<lparr>Config :=
                             Some (cfg\<lparr>Listeners := map (dev_listen_address (flags c)) (Listeners cfg)\<rparr>)\<rparr>))))"

text \<open>
  \<open>Start\<close>: \<open>Inl\<close> is a panic (\<open>controller.New\<close> reads the configuration through a \<open>nil\<close>
  pointer; the assignment to \<open>c.controller\<close> is not reached), \<open>Inr\<close> the error returned and
  the command.
\<close>

definition Start :: "'w run_env \<Rightarrow> 'w command \<Rightarrow> 'w command + error option \<times> 'w command" where
  "Start env c =
     (case New (env_LockMemory env) (Config c) (Server c) of
        (None, srv) \<Rightarrow> Inl (c\<lparr>Server := srv\<rparr>)
      | (Some (Inl err), srv) \<Rightarrow>
          Inr (Some (Wrapped ''Error initializing controller'' err),
               c\<lparr>controller := None, Server := srv\<rparr>)
      | (Some (Inr ctl), srv) \<Rightarrow>
          (case Controller_Start (env_startListeners env) ctl of
             (None, ctl') \<Rightarrow> Inr (None, c\<lparr>controller := Some ctl', Server := srv\<rparr>)
           | (Some err, ctl') \<Rightarrow>
               (let retErr = Wrapped ''Error starting controller'' err
                in case Controller_Shutdown (env_stopListeners env) ctl' of
                     (None, ctl'') \<Rightarrow>
                       Inr (Some retErr, c\<lparr>controller := Some ctl'', Server := srv\<rparr>)
                   | (Some err', ctl'') \<Rightarrow>
                       Inr (Some (Wrapped ''Error with controller shutdown'' err'),
                            ui_Error retErr (c\<lparr>controller := Some ctl'', Server := srv\<rparr>)))))"

text \<open>
  Modelled from the spec: \<open>RunShutdownFuncs\<close> is a method of \<open>base.Server\<close>, which is not
  among the source files. The spec says that the registered shutdown actions run; the
  model executes every function of \<open>ShutdownFuncs\<close>, in order, and records it.
\<close>

definition RunShutdownFuncs :: "'w command \<Rightarrow> 'w command" where
  "RunShutdownFuncs c = c\<lparr>shutdown_run := shutdown_run c @ ShutdownFuncs (Server c)\<rparr>"

text \<open>
  \<open>Run\<close> up to the \<open>defer\<close> statement, in four parts. Each part returns \<open>Inl\<close> when
  \<open>Run\<close> returns (or panics) in it, with the outcome and the command then, and \<open>Inr\<close> the
  command when \<open>Run\<close> goes on to the next part. A part that reads a field of \<open>c.Config\<close>
  panics when the pointer is \<open>nil\<close>. \<open>base.StartMemProfiler\<close> has no effect on the state
  modelled.
\<close>

definition mlock_warning :: string where
  "mlock_warning = ''WARNING! mlock is not supported on this system!''"

text \<open>The new server and \<open>ParseFlagsAndConfig\<close>.\<close>

definition Run_parse ::
  "'w run_env \<Rightarrow> string list \<Rightarrow> 'w command \<Rightarrow> outcome \<times> 'w command + 'w command" where
  "Run_parse env args c0 =
     (let c = c0\<lparr>Server := (env_NewServer env)\<lparr>CombineLogs := flagCombineLogs (flags c0)\<rparr>\<rparr>
      in case ParseFlagsAndConfig env args c of
           Inl c \<Rightarrow> Inl (Panic, c)
         | Inr (result, c) \<Rightarrow> if result > 0 then Inl (Exit result, c) else Inr c)"

text \<open>
  From \<open>SetupLogging\<close> to the mlock warning: logging, metrics, the KMSes, the global
  request duration.
\<close>

definition Run_setup :: "'w run_env \<Rightarrow> 'w command \<Rightarrow> outcome \<times> 'w command + 'w command" where
  "Run_setup env c =
     (case Config c of
        None \<Rightarrow> Inl (Panic, c)
      | Some cfg \<Rightarrow>
          (case run_stage (env_SetupLogging env) cfg c of
             (Some err, c) \<Rightarrow> Inl (Exit 1, ui_Error err c)
           | (None, c) \<Rightarrow>
          (case run_stage (env_SetupMetrics env) cfg c of
             (Some err, c) \<Rightarrow> Inl (Exit 1, ui_Error err c)
           | (None, c) \<Rightarrow>
          (case run_stage (env_SetupKMSes env) cfg c of
             (Some err, c) \<Rightarrow> Inl (Exit 1, ui_Error err c)
           | (None, c) \<Rightarrow>
          (let c = (if DefaultMaxRequestDuration cfg \<noteq> 0
                    then c\<lparr>globals_DefaultMaxRequestDuration := DefaultMaxRequestDuration cfg\<rparr>
                    else c);
               c = (if \<not> flagDev (flags c) \<and> \<not> DisableMlock cfg \<and> \<not> env_mlock_Supported env
                    then ui_Warn mlock_warning c else c)
           in Inr c)))))"

text \<open>The listener checks: the loop over the listeners and the topology check.\<close>

definition Run_validate :: "'w command \<Rightarrow> outcome \<times> 'w command + 'w command" where
  "Run_validate c =
     (case Config c of
        None \<Rightarrow> Inl (Panic, c)
      | Some cfg \<Rightarrow>
          (case validate_listeners (Listeners cfg) of
             (lns, Some err) \<Rightarrow>
               Inl (Exit 1, ui_Error err (c\<lparr>Config := Some (cfg\<lparr>Listeners := lns\<rparr>)\<rparr>))
           | (lns, None) \<Rightarrow> Inr (c\<lparr>Config := Some (cfg\<lparr>Listeners := lns\<rparr>)\<rparr>)))"

text \<open>
  From \<open>SetupListeners\<close> to the registration of the development database's teardown.
\<close>

definition Run_listen :: "'w run_env \<Rightarrow> 'w command \<Rightarrow> outcome \<times> 'w command + 'w command" where
  "Run_listen env c =
     (case Config c of
        None \<Rightarrow> Inl (Panic, c)
      | Some cfg \<Rightarrow>
          (case run_stage (env_SetupListeners env) cfg c of
             (Some err, c) \<Rightarrow> Inl (Exit 1, ui_Error err c)
           | (None, c) \<Rightarrow>
          (case run_stage (env_StorePidFile env) cfg c of
             (Some err, c) \<Rightarrow> Inl (Exit 1, ui_Error (Wrapped ''Error storing PID'' err) c)
           | (None, c) \<Rightarrow>
          (if flagDev (flags c) then
             (case run_stage (env_CreateDevDatabase env) cfg c of
                (Some err, c) \<Rightarrow>
                  Inl (Exit 1,
                       ui_Error (Wrapped ''Error creating dev database container'' err) c)
              | (None, c) \<Rightarrow>
                  Inr (c\<lparr>Server := (Server c)\<lparr>ShutdownFuncs :=
                                      ShutdownFuncs (Server c) @ [DestroyDevDatabase]\<rparr>\<rparr>))
           else Inr c))))"

definition Run_startup ::
  "'w run_env \<Rightarrow> string list \<Rightarrow> 'w command \<Rightarrow> outcome \<times> 'w command + 'w command" where
  "Run_startup env args c0 =
     (case Run_parse env args c0 of
        Inl r \<Rightarrow> Inl r
      | Inr c \<Rightarrow>
          (case Run_setup env c of
             Inl r \<Rightarrow> Inl r
           | Inr c \<Rightarrow>
               (case Run_validate c of
                  Inl r \<Rightarrow> Inl r
                | Inr c \<Rightarrow> Run_listen env c)))"

text \<open>
  \<open>Run\<close>. Once the \<open>defer\<close> statement has run, \<open>RunShutdownFuncs\<close> is called when \<open>Run\<close>
  returns, and also when it panics. \<open>PrintInfo\<close> and \<open>ReleaseLogGate\<close> have no effect on the
  state modelled. The result is \<open>None\<close> when the event loop does not return.
\<close>

definition Run ::
  "'w run_env \<Rightarrow> string list \<Rightarrow> 'w command \<Rightarrow> (outcome \<times> 'w command) option" where
  "Run env args c0 =
     (case Run_startup env args c0 of
        Inl (out, c) \<Rightarrow> Some (out, c)
      | Inr c \<Rightarrow>
          (case Start env c of
             Inl c \<Rightarrow> Some (Panic, RunShutdownFuncs c)
           | Inr (Some err, c) \<Rightarrow> Some (Exit 1, RunShutdownFuncs (ui_Error err c))
           | Inr (None, c) \<Rightarrow>
               (case WaitForInterrupt c (env_events env) of
                  None \<Rightarrow> None
                | Some (out, c, rest) \<Rightarrow> Some (out, RunShutdownFuncs c))))"

section \<open>Vocabulary of the properties\<close>

text \<open>
  A listener serves a purpose when it declares it, or declares none (it then serves
  both). It passes the per-listener rules when its iteration of the loop ends without an
  error.
\<close>

definition serves :: "string \<Rightarrow> listener \<Rightarrow> bool" where
  "serves p ln = (Purpose ln = [] \<or> p \<in> set (Purpose ln))"

definition passes_purpose_rules :: "listener \<Rightarrow> bool" where
  "passes_purpose_rules ln =
     (case snd (check_listener ln (False, False)) of Inl e \<Rightarrow> False | Inr found \<Rightarrow> True)"

text \<open>
  Of a list of recorded calls: the errors \<open>Reload\<close> appends for them, and the callbacks
  called (key and index). \<open>key_callbacks m k\<close> are the callbacks that are not \<open>nil\<close> of a
  key with the prefix \<open>listener|\<close>, in the order of the key's slice;
  \<open>listener_callbacks m ks\<close> joins them for the keys in the order \<open>ks\<close>.
\<close>

definition failures :: "(string \<times> nat \<times> error option) list \<Rightarrow> error list" where
  "failures calls =
     List.map_filter
       (\<lambda>(k, i, r). map_option (Wrapped ''error encountered reloading listener'') r) calls"

definition positions :: "(string \<times> nat \<times> error option) list \<Rightarrow> (string \<times> nat) list" where
  "positions calls = map (\<lambda>(k, i, r). (k, i)) calls"

definition key_callbacks :: "(string \<rightharpoonup> 'f option list) \<Rightarrow> string \<Rightarrow> (string \<times> nat) list" where
  "key_callbacks m k =
     (case m k of
        None \<Rightarrow> []
      | Some fs \<Rightarrow>
          if HasPrefix k ''listener|''
          then map (Pair k) (filter (\<lambda>i. fs ! i \<noteq> None) [0..<length fs])
          else [])"

definition listener_callbacks ::
  "(string \<rightharpoonup> 'f option list) \<Rightarrow> string list \<Rightarrow> (string \<times> nat) list" where
  "listener_callbacks m ks = concat (map (key_callbacks m) ks)"

fun slice_positions :: "nat \<Rightarrow> 'f option list \<Rightarrow> nat list" where
  "slice_positions i [] = []"
| "slice_positions i (None # fs) = slice_positions (Suc i) fs"
| "slice_positions i (Some f # fs) = i # slice_positions (Suc i) fs"

text \<open>What the reload case and the dump case of the event loop leave as it was.\<close>

definition loop_frame :: "'w command \<Rightarrow> 'w command \<Rightarrow> bool" where
  "loop_frame c c' =
     (flags c' = flags c \<and> cleanupGuard c' = cleanupGuard c \<and> Config c' = Config c \<and>
      controller c' = controller c \<and> shutdown_run c' = shutdown_run c \<and>
      globals_DefaultMaxRequestDuration c' = globals_DefaultMaxRequestDuration c \<and>
      ShutdownFuncs (Server c') = ShutdownFuncs (Server c) \<and>
      ReloadFuncs (Server c') = ReloadFuncs (Server c))"

text \<open>
  What the command may do to a listener of the loaded configuration: leave it as it is,
  give it the purposes \<open>api\<close> and \<open>cluster\<close> when it declares none (the validation of
  \<open>Run\<close>), or, in development mode, give a listener that declares only \<open>api\<close> (only
  \<open>cluster\<close>) the address of the matching flag when that flag is set
  (\<open>ParseFlagsAndConfig\<close>). A configuration is kept when nothing but its listeners differs
  and every listener is kept in this sense.
\<close>

definition listener_kept :: "flag_values \<Rightarrow> listener \<Rightarrow> listener \<Rightarrow> bool" where
  "listener_kept fl l l' =
     (l' = l \<or>
      Purpose l = [] \<and> l' = l\<lparr>Purpose := [''api'', ''cluster'']\<rparr> \<or>
      flagDev fl \<and> Purpose l = [''api''] \<and> flagDevControllerAPIListenAddr fl \<noteq> [] \<and>
        l' = l\<lparr>Address := flagDevControllerAPIListenAddr fl\<rparr> \<or>
      flagDev fl \<and> Purpose l = [''cluster''] \<and> flagDevControllerClusterListenAddr fl \<noteq> [] \<and>
        l' = l\<lparr>Address := flagDevControllerClusterListenAddr fl\<rparr>)"

definition config_kept :: "flag_values \<Rightarrow> config \<Rightarrow> config \<Rightarrow> bool" where
  "config_kept fl cfg cfg' =
     (cfg' = cfg\<lparr>Listeners := Listeners cfg'\<rparr> \<and>
      list_all2 (listener_kept fl) (Listeners cfg) (Listeners cfg'))"

text \<open>
  The configuration the loader hands to \<open>ParseFlagsAndConfig\<close>, given the flags after
  parsing.
\<close>

definition loaded_config :: "'w run_env \<Rightarrow> flag_values \<Rightarrow> config option" where
  "loaded_config env fl =
     (if flagDev fl then fst (env_DevController env)
      else fst (env_LoadFile env (flagConfig fl)))"

section \<open>Example inputs\<close>

text \<open>
  A command as \<open>Run\<close> leaves it when the event loop starts: a TLS listener for both
  purposes, a logger, a started controller, and two reload callbacks registered for the key
  \<open>listener|tcp\<close>, the first failing, the second recording its effect in the outside world
  (a list of strings). A callback under another key records its effect too.
\<close>

definition example_flags :: flag_values where
  "example_flags =
     \<lparr>flagConfig = [], flagLogLevel = [], flagLogFormat = [], flagDev = False,
      flagDevAdminPassword = [], flagDevControllerAPIListenAddr = [],
      flagDevControllerClusterListenAddr = [], flagCombineLogs = False\<rparr>"

definition example_config :: config where
  "example_config =
     \<lparr>Listeners = [\<lparr>Address = ''127.0.0.1:9200'', Purpose = [], TLSDisable = False\<rparr>],
      LogLevel = ''info'', LogFormat = ''standard'', DisableMlock = True,
      PidFile = ''/run/controller.pid'', DefaultMaxRequestDuration = 0\<rparr>"

definition failing_reload :: "string list reload_func" where
  "failing_reload w = (Some (Err ''certificate unreadable''), w)"

definition succeeding_reload :: "string list reload_func" where
  "succeeding_reload w = (None, w @ [''certificate reloaded''])"

definition other_reload :: "string list reload_func" where
  "other_reload w = (None, w @ [''other subsystem reloaded''])"

definition example_ReloadFuncs :: "string \<rightharpoonup> string list reload_func option list" where
  "example_ReloadFuncs =
     [''listener|tcp'' \<mapsto> [Some failing_reload, Some succeeding_reload],
      ''telemetry'' \<mapsto> [Some other_reload]]"

definition example_server :: "string list server" where
  "example_server =
     \<lparr>CombineLogs = False, Logger = Some [], AllLoggers = [hclog_Info],
      SecureRandomReader = None, ShutdownFuncs = [], ReloadFuncs = example_ReloadFuncs\<rparr>"

definition example_command :: "string list command" where
  "example_command =
     \<lparr>flags = example_flags, cleanupGuard = False, Config = Some example_config,
      controller = Some \<lparr>RawConfig = example_config, starts = 1, stops = 0\<rparr>,
      Server = example_server, UI = [], ReloadedCh = 0,
      globals_DefaultMaxRequestDuration = 0, world = [], reload_calls = [],
      shutdown_run = []\<rparr>"

text \<open>
  Two callbacks under two listener keys, for the order of a map visit.
\<close>

definition tcp_reload :: "string list reload_func" where
  "tcp_reload w = (None, w @ [''tcp''])"

definition unix_reload :: "string list reload_func" where
  "unix_reload w = (None, w @ [''unix''])"

definition two_key_command :: "string list command" where
  "two_key_command =
     example_command\<lparr>Server := example_server\<lparr>ReloadFuncs :=
        [''listener|tcp'' \<mapsto> [Some tcp_reload], ''listener|unix'' \<mapsto> [Some unix_reload]]\<rparr>\<rparr>"

text \<open>
  A command with a configuration path, and a reload trigger at which the file cannot be
  read.
\<close>

definition config_path_command :: "string list command" where
  "config_path_command =
     example_command\<lparr>flags := example_flags\<lparr>flagConfig := ''/etc/watchtower/controller.hcl''\<rparr>\<rparr>"

definition failed_load :: reload_env where
  "failed_load =
     \<lparr>loadFile = (None, Some (Err ''open /etc/watchtower/controller.hcl: no such file'')),
      visit_order = [''listener|tcp'', ''telemetry''], ReloadedCh_ready = True\<rparr>"

text \<open>The same command when \<open>c.Logger\<close> is \<open>nil\<close>.\<close>

definition no_logger_command :: "string list command" where
  "no_logger_command = config_path_command\<lparr>Server := example_server\<lparr>Logger := None\<rparr>\<rparr>"

text \<open>
  A run in development mode. The development configuration has an \<open>api\<close> listener, a
  \<open>cluster\<close> listener and a listener with no purpose; the flags give an address for the
  \<open>api\<close> listener. \<open>SetupLogging\<close> sets the logger, \<open>SetupListeners\<close> registers the reload
  callbacks, \<open>StorePidFile\<close> registers the removal of the PID file as a shutdown function.
  Every stage succeeds and the only event is a shutdown trigger. In \<open>failing_env\<close> the
  creation of the development database fails.
\<close>

definition dev_config :: config where
  "dev_config =
     \<lparr>Listeners =
        [\<lparr>Address = ''127.0.0.1:9200'', Purpose = [''api''], TLSDisable = True\<rparr>,
         \<lparr>Address = ''127.0.0.1:9201'', Purpose = [''cluster''], TLSDisable = True\<rparr>,
         \<lparr>Address = ''127.0.0.1:9202'', Purpose = [], TLSDisable = False\<rparr>],
      LogLevel = ''info'', LogFormat = ''standard'', DisableMlock = True,
      PidFile = ''/run/controller.pid'', DefaultMaxRequestDuration = 0\<rparr>"

definition new_command :: "string list command" where
  "new_command =
     \<lparr>flags = example_flags, cleanupGuard = False, Config = None, controller = None,
      Server = \<lparr>CombineLogs = False, Logger = None, AllLoggers = [],
                SecureRandomReader = None, ShutdownFuncs = [], ReloadFuncs = Map.empty\<rparr>,
      UI = [], ReloadedCh = 0, globals_DefaultMaxRequestDuration = 90, world = [],
      reload_calls = [], shutdown_run = []\<rparr>"

definition example_env :: "string list run_env" where
  "example_env =
     \<lparr>env_NewServer = \<lparr>CombineLogs = False, Logger = None, AllLoggers = [],
                       SecureRandomReader = None, ShutdownFuncs = [], ReloadFuncs = Map.empty\<rparr>,
      env_Parse = (\<lambda>args fl. (fl\<lparr>flagDev := True,
                                   flagDevControllerAPIListenAddr := ''127.0.0.1:9300''\<rparr>, None)),
      env_LoadFile = (\<lambda>path. (None, Some (Err ''no such file''))),
      env_DevController = (Some dev_config, None),
      env_SetupLogging = (\<lambda>fl cfg srv. (None, srv\<lparr>Logger := Some [], AllLoggers := [hclog_Info]\<rparr>)),
      env_SetupMetrics = (\<lambda>fl cfg srv. (None, srv)),
      env_SetupKMSes = (\<lambda>fl cfg srv. (None, srv)),
      env_mlock_Supported = True,
      env_SetupListeners = (\<lambda>fl cfg srv. (None, srv\<lparr>ReloadFuncs := example_ReloadFuncs\<rparr>)),
      env_StorePidFile =
        (\<lambda>fl cfg srv. (None, srv\<lparr>ShutdownFuncs :=
                            ShutdownFuncs srv @ [ExternalShutdownFunc ''remove PID file'']\<rparr>)),
      env_CreateDevDatabase = (\<lambda>fl cfg srv. (None, srv)),
      env_LockMemory = None, env_startListeners = None, env_stopListeners = None,
      env_events = [ShutdownCh None]\<rparr>"

definition failing_env :: "string list run_env" where
  "failing_env =
     example_env\<lparr>env_CreateDevDatabase :=
       (\<lambda>fl cfg srv. (Some (Err ''cannot start database container''), srv))\<rparr>"

section \<open>Properties of the listener purpose validation\<close>

lemma StrListContains_set: "StrListContains xs x = (x \<in> set xs)"
  by (induction xs) auto

lemma length2E: "length xs = 2 \<Longrightarrow> \<exists>a b. xs = [a, b]"
  by (cases xs; cases "tl xs") auto

lemma purpose_case_2_ok:
  "purpose_case_2 ln =
     (if ''api'' \<in> set (Purpose ln) \<and> ''cluster'' \<in> set (Purpose ln)
      then (if TLSDisable ln then Inl TLSCannotBeDisabled else Inr (True, True))
      else Inl (InvalidListenerPurposeSet (Purpose ln)))"
  by (simp add: purpose_case_2_def StrListContains_set)

lemma two_set:
  "length xs = 2 \<Longrightarrow>
     (''api'' \<in> set xs \<and> ''cluster'' \<in> set xs) = (set xs = {''api'', ''cluster''})"
  by (auto dest!: length2E)


text \<open>A listener whose iteration fails makes the loop fail, wherever it stands.\<close>

lemma check_listeners_fail:
  "ln \<in> set lns \<Longrightarrow> (\<And>found. \<exists>e. snd (check_listener ln found) = Inl e) \<Longrightarrow>
     \<exists>e. snd (check_listeners lns found) = Inl e"
proof (induction lns arbitrary: found)
  case Nil
  then show ?case by simp
next
  case (Cons a lns)
  show ?case
  proof (cases "check_listener a found")
    case (Pair a' r)
    show ?thesis
    proof (cases r)
      case (Inl e)
      with Pair show ?thesis by simp
    next
      case (Inr found')
      have "ln \<noteq> a"
      proof
        assume "ln = a"
        with Cons.prems(2)[of found] Pair Inr show False by simp
      qed
      with Cons.prems(1) have "ln \<in> set lns" by simp
      from Cons.IH[OF this Cons.prems(2), of found'] Pair Inr show ?thesis
        by (auto split: prod.splits)
    qed
  qed
qed

lemma validate_fail:
  "\<exists>e. snd (check_listeners lns (False, False)) = Inl e \<Longrightarrow>
     snd (validate_listeners lns) \<noteq> None"
  by (auto simp: validate_listeners_def split: prod.splits sum.splits)

lemma both_purposes_tls:
  assumes "Purpose ln = [] \<or> length (Purpose ln) = 2 \<and> set (Purpose ln) = {''api'', ''cluster''}"
  shows "snd (check_listener ln found) =
           (if TLSDisable ln then Inl TLSCannotBeDisabled else Inr (True, True))"
  using assms by (auto simp: check_listener_def purpose_case_2_ok Let_def)

lemma invalid_pair:
  assumes "length (Purpose ln) = 2" "set (Purpose ln) \<noteq> {''api'', ''cluster''}"
  shows "snd (check_listener ln found) = Inl (InvalidListenerPurposeSet (Purpose ln))"
  using assms two_set[of "Purpose ln"]
  by (auto simp: check_listener_def purpose_case_2_ok Let_def)

text \<open>
  The rules of the case of two purposes and of the empty list. A listener that declares
  exactly two purposes fails the validation unless the two are \<open>api\<close> and \<open>cluster\<close> (in either order): its iteration ends with the error
  "invalid listener purpose set", and so does the validation of every list that holds it, if
  not with an earlier error. A listener that serves both purposes, by declaring the two or
  by declaring none, fails in the same way with the TLS error when \<open>TLSDisable\<close> is set;
  with TLS enabled its iteration passes and sets both flags. Of the listeners that serve
  both purposes, this covers the ones with exactly two entries or none.
\<close>

theorem two_purpose_listener_rules:
  "(length (Purpose ln) = 2 \<and> set (Purpose ln) \<noteq> {''api'', ''cluster''} \<longrightarrow>
      snd (check_listener ln found) = Inl (InvalidListenerPurposeSet (Purpose ln)) \<and>
      (ln \<in> set lns \<longrightarrow> snd (validate_listeners lns) \<noteq> None)) \<and>
   ((Purpose ln = [] \<or> length (Purpose ln) = 2 \<and> set (Purpose ln) = {''api'', ''cluster''}) \<and>
     TLSDisable ln \<longrightarrow>
      snd (check_listener ln found) = Inl TLSCannotBeDisabled \<and>
      (ln \<in> set lns \<longrightarrow> snd (validate_listeners lns) \<noteq> None)) \<and>
   ((Purpose ln = [] \<or> length (Purpose ln) = 2 \<and> set (Purpose ln) = {''api'', ''cluster''}) \<and>
     \<not> TLSDisable ln \<longrightarrow>
      snd (check_listener ln found) = Inr (True, True))"
proof (intro conjI impI)
  assume a: "length (Purpose ln) = 2 \<and> set (Purpose ln) \<noteq> {''api'', ''cluster''}"
  then show "snd (check_listener ln found) = Inl (InvalidListenerPurposeSet (Purpose ln))"
    by (simp add: invalid_pair)
  assume "ln \<in> set lns"
  then show "snd (validate_listeners lns) \<noteq> None"
    using a by (intro validate_fail check_listeners_fail[of ln]) (auto simp: invalid_pair)
next
  assume a: "(Purpose ln = [] \<or> length (Purpose ln) = 2 \<and> set (Purpose ln) = {''api'', ''cluster''})
             \<and> TLSDisable ln"
  then show "snd (check_listener ln found) = Inl TLSCannotBeDisabled"
    by (simp add: both_purposes_tls)
  assume "ln \<in> set lns"
  then show "snd (validate_listeners lns) \<noteq> None"
    using a by (intro validate_fail check_listeners_fail[of ln]) (auto simp: both_purposes_tls)
next
  assume "(Purpose ln = [] \<or> length (Purpose ln) = 2 \<and> set (Purpose ln) = {''api'', ''cluster''})
          \<and> \<not> TLSDisable ln"
  then show "snd (check_listener ln found) = Inr (True, True)"
    by (simp add: both_purposes_tls)
qed

theorem two_purpose_listener_rules_witness:
  "snd (check_listener \<lparr>Address = ''a:1'', Purpose = [''api'', ''worker''], TLSDisable = False\<rparr>
          (False, False)) = Inl (InvalidListenerPurposeSet [''api'', ''worker'']) \<and>
   snd (validate_listeners
          [\<lparr>Address = ''c:1'', Purpose = [''cluster''], TLSDisable = False\<rparr>,
           \<lparr>Address = ''a:1'', Purpose = [''api'', ''worker''], TLSDisable = False\<rparr>]) \<noteq> None \<and>
   snd (check_listener \<lparr>Address = ''a:1'', Purpose = [''cluster'', ''api''], TLSDisable = True\<rparr>
          (False, False)) = Inl TLSCannotBeDisabled \<and>
   snd (validate_listeners
          [\<lparr>Address = ''a:1'', Purpose = [], TLSDisable = True\<rparr>]) \<noteq> None \<and>
   snd (check_listener \<lparr>Address = ''a:1'', Purpose = [''cluster'', ''api''], TLSDisable = False\<rparr>
          (False, False)) = Inr (True, True)"
proof -
  let ?bad = "\<lparr>Address = ''a:1'', Purpose = [''api'', ''worker''], TLSDisable = False\<rparr>"
  let ?off = "\<lparr>Address = ''a:1'', Purpose = [''cluster'', ''api''], TLSDisable = True\<rparr>"
  let ?none = "\<lparr>Address = ''a:1'', Purpose = [], TLSDisable = True\<rparr>"
  let ?on = "\<lparr>Address = ''a:1'', Purpose = [''cluster'', ''api''], TLSDisable = False\<rparr>"
  let ?c = "\<lparr>Address = ''c:1'', Purpose = [''cluster''], TLSDisable = False\<rparr>"
  have 1: "length (Purpose ?bad) = 2 \<and> set (Purpose ?bad) \<noteq> {''api'', ''cluster''}"
  proof (rule conjI)
    show "length (Purpose ?bad) = 2" by simp
    show "set (Purpose ?bad) \<noteq> {''api'', ''cluster''}"
    proof
      assume eq: "set (Purpose ?bad) = {''api'', ''cluster''}"
      have "''worker'' \<in> set (Purpose ?bad)" by simp
      then have "''worker'' \<in> {''api'', ''cluster''}" by (simp only: eq)
      then show False by simp
    qed
  qed
  have m: "?bad \<in> set [?c, ?bad]" by simp
  have 2: "(Purpose ?off = [] \<or> length (Purpose ?off) = 2 \<and> set (Purpose ?off) = {''api'', ''cluster''})
           \<and> TLSDisable ?off"
    by (simp add: insert_commute)
  have 3: "(Purpose ?none = [] \<or> length (Purpose ?none) = 2 \<and> set (Purpose ?none) = {''api'', ''cluster''})
           \<and> TLSDisable ?none"
    by simp
  have m3: "?none \<in> set [?none]" by simp
  have 4: "(Purpose ?on = [] \<or> length (Purpose ?on) = 2 \<and> set (Purpose ?on) = {''api'', ''cluster''})
           \<and> \<not> TLSDisable ?on"
    by (simp add: insert_commute)
  note a = two_purpose_listener_rules[of ?bad "(False, False)" "[?c, ?bad]",
             THEN conjunct1, THEN mp, OF 1, THEN conjunct1]
  note b = two_purpose_listener_rules[of ?bad "(False, False)" "[?c, ?bad]",
             THEN conjunct1, THEN mp, OF 1, THEN conjunct2, THEN mp, OF m]
  note c = two_purpose_listener_rules[of ?off "(False, False)" "[]",
             THEN conjunct2, THEN conjunct1, THEN mp, OF 2, THEN conjunct1]
  note d = two_purpose_listener_rules[of ?none "(False, False)" "[?none]",
             THEN conjunct2, THEN conjunct1, THEN mp, OF 3, THEN conjunct2, THEN mp, OF m3]
  note e = two_purpose_listener_rules[of ?on "(False, False)" "[]",
             THEN conjunct2, THEN conjunct2, THEN mp, OF 4]
  have f: "Purpose ?bad = [''api'', ''worker'']" by simp
  show ?thesis using a[unfolded f] b c d e by (intro conjI)
qed








lemma check_listener_many:
  "3 \<le> length (Purpose ln) \<Longrightarrow> check_listener ln found = (ln, Inr found)"
proof -
  assume "3 \<le> length (Purpose ln)"
  then have "length (Purpose ln) \<noteq> 1" "length (Purpose ln) \<noteq> 0" "length (Purpose ln) \<noteq> 2"
    by arith+
  then show ?thesis unfolding check_listener_def by (simp only: if_False)
qed

lemma check_listeners_many:
  "(\<forall>ln\<in>set lns. 3 \<le> length (Purpose ln)) \<Longrightarrow> check_listeners lns found = (lns, Inr found)"
  by (induction lns arbitrary: found) (auto simp: check_listener_many)

text \<open>
  Claim C10. The iteration of a listener that declares three or more purposes returns
  no error, leaves the listener as it is and leaves both flags as they are. A list in which
  every listener declares three or more purposes passes the loop with the flags unchanged
  and passes the whole validation, the topology check included.
\<close>

theorem three_or_more_purposes_unchecked:
  "(3 \<le> length (Purpose ln) \<longrightarrow> check_listener ln found = (ln, Inr found)) \<and>
   ((\<forall>ln\<in>set lns. 3 \<le> length (Purpose ln)) \<longrightarrow>
      check_listeners lns found = (lns, Inr found) \<and> validate_listeners lns = (lns, None))"
  by (auto simp: check_listener_many check_listeners_many validate_listeners_def)

theorem three_or_more_purposes_unchecked_witness:
  "check_listener \<lparr>Address = ''a:1'', Purpose = [''bogus'', ''bogus'', ''api''], TLSDisable = True\<rparr>
     (False, False) =
     (\<lparr>Address = ''a:1'', Purpose = [''bogus'', ''bogus'', ''api''], TLSDisable = True\<rparr>,
      Inr (False, False)) \<and>
   validate_listeners
     [\<lparr>Address = ''a:1'', Purpose = [''bogus'', ''bogus'', ''api''], TLSDisable = True\<rparr>] =
     ([\<lparr>Address = ''a:1'', Purpose = [''bogus'', ''bogus'', ''api''], TLSDisable = True\<rparr>], None)"
proof -
  let ?ln = "\<lparr>Address = ''a:1'', Purpose = [''bogus'', ''bogus'', ''api''], TLSDisable = True\<rparr>"
  have 1: "3 \<le> length (Purpose ?ln)" by simp
  have 2: "\<forall>ln\<in>set [?ln]. 3 \<le> length (Purpose ln)" by simp
  from three_or_more_purposes_unchecked[of ?ln "(False, False)" "[?ln]"] 1 2
  show ?thesis by blast
qed

lemma only_api:
  assumes "length (Purpose ln) \<le> 2" "passes_purpose_rules ln" "\<not> serves ''cluster'' ln"
  shows "Purpose ln = [''api'']"
proof -
  from assms(3) have ne: "Purpose ln \<noteq> []" and nc: "''cluster'' \<notin> set (Purpose ln)"
    by (auto simp: serves_def)
  from ne have "0 < length (Purpose ln)" by simp
  with assms(1) have "length (Purpose ln) = 1 \<or> length (Purpose ln) = 2"
    by arith
  then show ?thesis
  proof
    assume l: "length (Purpose ln) = 1"
    then obtain a where a: "Purpose ln = [a]" by (cases "Purpose ln") auto
    with assms(2) nc show ?thesis
      by (auto simp: passes_purpose_rules_def check_listener_def split: if_splits)
  next
    assume l: "length (Purpose ln) = 2"
    with assms(2) nc show ?thesis
      by (auto simp: passes_purpose_rules_def check_listener_def purpose_case_2_ok
               split: if_splits)
  qed
qed

lemma check_listeners_api:
  "(\<forall>ln\<in>set lns. Purpose ln = [''api'']) \<Longrightarrow>
     check_listeners lns found = (lns, Inr (fst found, snd found \<or> lns \<noteq> []))"
  by (induction lns arbitrary: found) (auto simp: check_listener_def)

lemma check_listeners_cluster:
  "(\<forall>ln\<in>set lns. Purpose ln = [''cluster'']) \<Longrightarrow>
     check_listeners lns found = (lns, Inr (fst found \<or> lns \<noteq> [], snd found))"
  by (induction lns arbitrary: found) (auto simp: check_listener_def)

text \<open>
  The topology check on lists whose listeners declare at most two purposes. If all
  listeners pass the per-listener rules, one serves \<open>api\<close> and none serves \<open>cluster\<close>, the
  validation ends with the error "no cluster listener". A list of listeners that declare
  \<open>cluster\<close> only passes.
\<close>

theorem api_without_cluster_at_most_two_purposes:
  "((\<forall>ln\<in>set lns. length (Purpose ln) \<le> 2 \<and> passes_purpose_rules ln) \<and>
    (\<exists>ln\<in>set lns. serves ''api'' ln) \<and> (\<forall>ln\<in>set lns. \<not> serves ''cluster'' ln) \<longrightarrow>
      validate_listeners lns = (lns, Some NoClusterListener)) \<and>
   ((\<forall>ln\<in>set lns. Purpose ln = [''cluster'']) \<longrightarrow> validate_listeners lns = (lns, None))"
proof (intro conjI impI)
  assume a: "(\<forall>ln\<in>set lns. length (Purpose ln) \<le> 2 \<and> passes_purpose_rules ln) \<and>
    (\<exists>ln\<in>set lns. serves ''api'' ln) \<and> (\<forall>ln\<in>set lns. \<not> serves ''cluster'' ln)"
  then have "\<forall>ln\<in>set lns. Purpose ln = [''api'']" by (auto intro: only_api)
  moreover from a have "lns \<noteq> []" by auto
  ultimately show "validate_listeners lns = (lns, Some NoClusterListener)"
    by (simp add: validate_listeners_def check_listeners_api)
next
  assume "\<forall>ln\<in>set lns. Purpose ln = [''cluster'']"
  then show "validate_listeners lns = (lns, None)"
    by (simp add: validate_listeners_def check_listeners_cluster)
qed

theorem api_without_cluster_at_most_two_purposes_witness:
  "validate_listeners [\<lparr>Address = ''a:1'', Purpose = [''api''], TLSDisable = True\<rparr>] =
     ([\<lparr>Address = ''a:1'', Purpose = [''api''], TLSDisable = True\<rparr>], Some NoClusterListener) \<and>
   validate_listeners [\<lparr>Address = ''c:1'', Purpose = [''cluster''], TLSDisable = True\<rparr>] =
     ([\<lparr>Address = ''c:1'', Purpose = [''cluster''], TLSDisable = True\<rparr>], None)"
proof -
  let ?a = "\<lparr>Address = ''a:1'', Purpose = [''api''], TLSDisable = True\<rparr>"
  let ?c = "\<lparr>Address = ''c:1'', Purpose = [''cluster''], TLSDisable = True\<rparr>"
  have 1: "(\<forall>ln\<in>set [?a]. length (Purpose ln) \<le> 2 \<and> passes_purpose_rules ln) \<and>
    (\<exists>ln\<in>set [?a]. serves ''api'' ln) \<and> (\<forall>ln\<in>set [?a]. \<not> serves ''cluster'' ln)"
    by (simp add: passes_purpose_rules_def serves_def check_listener_def)
  have 2: "\<forall>ln\<in>set [?c]. Purpose ln = [''cluster'']" by simp
  from api_without_cluster_at_most_two_purposes[of "[?a]"] 1
       api_without_cluster_at_most_two_purposes[of "[?c]"] 2
  show ?thesis by blast
qed

text \<open>
  Claim C3, at the input where the code departs from it. A single listener that
  declares the purposes \<open>api\<close>, \<open>x\<close> and \<open>y\<close> serves \<open>api\<close>, no listener serves \<open>cluster\<close>, the
  listener passes the per-listener rules, and the validation returns no error.
\<close>

theorem api_listener_with_three_purposes_accepted:
  "serves ''api'' \<lparr>Address = ''127.0.0.1:9200'', Purpose = [''api'', ''x'', ''y''], TLSDisable = False\<rparr> \<and>
   \<not> serves ''cluster''
       \<lparr>Address = ''127.0.0.1:9200'', Purpose = [''api'', ''x'', ''y''], TLSDisable = False\<rparr> \<and>
   passes_purpose_rules
       \<lparr>Address = ''127.0.0.1:9200'', Purpose = [''api'', ''x'', ''y''], TLSDisable = False\<rparr> \<and>
   validate_listeners
       [\<lparr>Address = ''127.0.0.1:9200'', Purpose = [''api'', ''x'', ''y''], TLSDisable = False\<rparr>] =
     ([\<lparr>Address = ''127.0.0.1:9200'', Purpose = [''api'', ''x'', ''y''], TLSDisable = False\<rparr>], None)"
  by (simp add: serves_def passes_purpose_rules_def validate_listeners_def check_listener_def)

text \<open>
  Claim C4, at the input where the code departs from it. A listener that declares the
  purposes \<open>api\<close>, \<open>cluster\<close> and a third entry serves both purposes, declared explicitly,
  and has \<open>TLSDisable\<close> set; the switch on the number of purposes has no case for three,
  so the iteration of the listener returns no error and leaves the flags as they were,
  the listener passes the per-listener rules, and the validation returns no error. The
  same holds when the third entry repeats \<open>api\<close>.
\<close>

theorem both_purposes_with_third_entry_accepted:
  "serves ''api'' \<lparr>Address = ''127.0.0.1:9200'', Purpose = [''api'', ''cluster'', ''x''], TLSDisable = True\<rparr> \<and>
   serves ''cluster''
       \<lparr>Address = ''127.0.0.1:9200'', Purpose = [''api'', ''cluster'', ''x''], TLSDisable = True\<rparr> \<and>
   TLSDisable
       \<lparr>Address = ''127.0.0.1:9200'', Purpose = [''api'', ''cluster'', ''x''], TLSDisable = True\<rparr> \<and>
   snd (check_listener
       \<lparr>Address = ''127.0.0.1:9200'', Purpose = [''api'', ''cluster'', ''x''], TLSDisable = True\<rparr>
       (False, False)) = Inr (False, False) \<and>
   passes_purpose_rules
       \<lparr>Address = ''127.0.0.1:9200'', Purpose = [''api'', ''cluster'', ''x''], TLSDisable = True\<rparr> \<and>
   validate_listeners
       [\<lparr>Address = ''127.0.0.1:9200'', Purpose = [''api'', ''cluster'', ''x''], TLSDisable = True\<rparr>] =
     ([\<lparr>Address = ''127.0.0.1:9200'', Purpose = [''api'', ''cluster'', ''x''], TLSDisable = True\<rparr>], None) \<and>
   validate_listeners
       [\<lparr>Address = ''127.0.0.1:9200'', Purpose = [''api'', ''cluster'', ''api''], TLSDisable = True\<rparr>] =
     ([\<lparr>Address = ''127.0.0.1:9200'', Purpose = [''api'', ''cluster'', ''api''], TLSDisable = True\<rparr>], None)"
  by (simp add: serves_def passes_purpose_rules_def validate_listeners_def check_listener_def)

section \<open>Properties of Reload\<close>

lemma slice_positions_shift: "slice_positions (Suc i) fs = map Suc (slice_positions i fs)"
  by (induction i fs rule: slice_positions.induct) auto

lemma filter_upt_Cons:
  "filter P [0..<Suc n] = (if P 0 then [0] else []) @ map Suc (filter (P \<circ> Suc) [0..<n])"
proof -
  have "[0..<Suc n] = 0 # map Suc [0..<n]"
    by (simp add: upt_conv_Cons map_Suc_upt del: upt_Suc)
  then show ?thesis by (simp add: filter_map del: upt_Suc)
qed

lemma slice_positions_filter:
  "slice_positions 0 fs = filter (\<lambda>i. fs ! i \<noteq> None) [0..<length fs]"
proof (induction fs)
  case Nil
  then show ?case by simp
next
  case (Cons a fs)
  have "filter (\<lambda>i. (a # fs) ! i \<noteq> None) [0..<length (a # fs)] =
        (if a \<noteq> None then [0] else []) @ map Suc (filter (\<lambda>i. fs ! i \<noteq> None) [0..<length fs])"
    using filter_upt_Cons[of "\<lambda>i. (a # fs) ! i \<noteq> None" "length fs"] by (simp add: comp_def)
  with Cons show ?case
    by (cases a) (simp_all add: slice_positions_shift[of 0])
qed

lemma failures_append: "failures (xs @ ys) = failures xs @ failures ys"
  by (simp add: failures_def map_filter_def)

lemma positions_append: "positions (xs @ ys) = positions xs @ positions ys"
  by (simp add: positions_def)

text \<open>
  The inner loop appends one call for every callback of the slice that is not \<open>nil\<close>,
  whatever the earlier callbacks returned, and appends the error of each failed call to
  \<open>reloadErrors\<close>.
\<close>

lemma run_relFuncs_char:
  "\<exists>new w'. run_relFuncs k i fs (errs, w, calls) =
               (foldl multierror_Append errs (failures new), w', calls @ new) \<and>
            positions new = map (Pair k) (slice_positions i fs)"
proof (induction fs arbitrary: i errs w calls)
  case Nil
  show ?case
    by (rule exI[of _ "[]"]) (simp add: failures_def positions_def map_filter_def)
next
  case (Cons a fs)
  show ?case
  proof (cases a)
    case None
    with Cons[of "Suc i" errs w calls] show ?thesis by simp
  next
    case (Some f)
    obtain r w1 where fw: "f w = (r, w1)" by (cases "f w")
    show ?thesis
    proof (cases r)
      case None
      from Cons[of "Suc i" errs w1 "calls @ [(k, i, None)]"]
      obtain new w' where
        1: "run_relFuncs k (Suc i) fs (errs, w1, calls @ [(k, i, None)]) =
              (foldl multierror_Append errs (failures new), w', (calls @ [(k, i, None)]) @ new)"
        and 2: "positions new = map (Pair k) (slice_positions (Suc i) fs)" by blast
      show ?thesis
        apply (rule exI[of _ "(k, i, None) # new"], rule exI[of _ w'])
        using 1 2 Some fw None
        by (simp add: failures_def positions_def map_filter_def)
    next
      case (Some e)
      let ?we = "Wrapped ''error encountered reloading listener'' e"
      from Cons[of "Suc i" "multierror_Append errs ?we" w1 "calls @ [(k, i, Some e)]"]
      obtain new w' where
        1: "run_relFuncs k (Suc i) fs (multierror_Append errs ?we, w1, calls @ [(k, i, Some e)]) =
              (foldl multierror_Append (multierror_Append errs ?we) (failures new), w',
               (calls @ [(k, i, Some e)]) @ new)"
        and 2: "positions new = map (Pair k) (slice_positions (Suc i) fs)" by blast
      show ?thesis
        apply (rule exI[of _ "(k, i, Some e) # new"], rule exI[of _ w'])
        using 1 2 \<open>a = Some f\<close> fw Some
        by (simp add: failures_def positions_def map_filter_def)
    qed
  qed
qed

lemma key_callbacks_slice:
  "key_callbacks m k = (case m k of None \<Rightarrow> [] | Some fs \<Rightarrow>
      if HasPrefix k ''listener|'' then map (Pair k) (slice_positions 0 fs) else [])"
  by (simp add: key_callbacks_def slice_positions_filter split: option.splits)

lemma listener_callbacks_Cons:
  "listener_callbacks m (k # ks) = key_callbacks m k @ listener_callbacks m ks"
  by (simp add: listener_callbacks_def)

lemma range_ReloadFuncs_char:
  "\<exists>new w'. range_ReloadFuncs m ks (errs, w, calls) =
               (foldl multierror_Append errs (failures new), w', calls @ new) \<and>
            positions new = listener_callbacks m ks"
proof (induction ks arbitrary: errs w calls)
  case Nil
  show ?case
    by (rule exI[of _ "[]"])
       (simp add: failures_def positions_def map_filter_def listener_callbacks_def)
next
  case (Cons k ks)
  show ?case
  proof (cases "\<exists>fs. m k = Some fs \<and> HasPrefix k ''listener|''")
    case False
    then have "range_ReloadFuncs m (k # ks) (errs, w, calls) =
                 range_ReloadFuncs m ks (errs, w, calls)"
      and "listener_callbacks m (k # ks) = listener_callbacks m ks"
      by (auto simp: listener_callbacks_def key_callbacks_def split: option.splits)
    with Cons[of errs w calls] show ?thesis by simp
  next
    case True
    then obtain fs where fs: "m k = Some fs" "HasPrefix k ''listener|''" by blast
    from run_relFuncs_char[of k 0 fs errs w calls] obtain new1 w1 where
      1: "run_relFuncs k 0 fs (errs, w, calls) =
            (foldl multierror_Append errs (failures new1), w1, calls @ new1)"
      and 2: "positions new1 = map (Pair k) (slice_positions 0 fs)" by blast
    from Cons[of "foldl multierror_Append errs (failures new1)" w1 "calls @ new1"]
    obtain new2 w2 where
      3: "range_ReloadFuncs m ks (foldl multierror_Append errs (failures new1), w1, calls @ new1) =
            (foldl multierror_Append (foldl multierror_Append errs (failures new1)) (failures new2),
             w2, (calls @ new1) @ new2)"
      and 4: "positions new2 = listener_callbacks m ks" by blast
    show ?thesis
      apply (rule exI[of _ "new1 @ new2"], rule exI[of _ w2])
      using fs 1 2 3 4
      by (simp add: failures_append positions_append listener_callbacks_Cons key_callbacks_slice)
  qed
qed

lemma foldl_Append_None:
  "foldl multierror_Append None es = (if es = [] then None else Some es)"
proof -
  have some: "foldl multierror_Append (Some xs) ys = Some (xs @ ys)" for xs ys
    by (induction ys arbitrary: xs) (auto simp: multierror_Append_def)
  show ?thesis
  proof (cases es)
    case Nil
    then show ?thesis by simp
  next
    case (Cons e es')
    then show ?thesis using some[of "[e]" es'] by (simp add: multierror_Append_def)
  qed
qed

lemma ErrorOrNil_foldl:
  "ErrorOrNil (foldl multierror_Append None es) =
     (if es = [] then None else Some (MultiError es))"
  by (simp add: foldl_Append_None ErrorOrNil_def)

lemma failures_Nil_iff: "failures new = [] \<longleftrightarrow> (\<forall>(k, i, r)\<in>set new. r = None)"
  by (induction new) (auto simp: failures_def map_filter_def)

lemma Reload_char:
  "\<exists>new w'. Reload ks ready c =
       (if failures new = [] then None else Some (MultiError (failures new)),
        c\<lparr>ReloadedCh := (if ready then ReloadedCh c + 1 else ReloadedCh c),
          world := w', reload_calls := reload_calls c @ new\<rparr>) \<and>
     positions new = listener_callbacks (ReloadFuncs (Server c)) ks"
proof -
  from range_ReloadFuncs_char[of "ReloadFuncs (Server c)" ks None "world c" "reload_calls c"]
  obtain new w' where
    1: "range_ReloadFuncs (ReloadFuncs (Server c)) ks (None, world c, reload_calls c) =
          (foldl multierror_Append None (failures new), w', reload_calls c @ new)"
    and 2: "positions new = listener_callbacks (ReloadFuncs (Server c)) ks" by blast
  show ?thesis
    apply (rule exI[of _ new], rule exI[of _ w'])
    using 1 2 by (simp add: Reload_def ErrorOrNil_foldl)
qed

text \<open>
  Claim C5. The calls \<open>new\<close> that \<open>Reload\<close> makes are one call for each callback of the
  visited listener keys that is not \<open>nil\<close>, in the order of the visit: no callback is skipped
  because an earlier one failed. The error returned is \<open>nil\<close> when no call failed, and
  otherwise one aggregate error that holds the error of every failed call, in the order of
  the calls; so it is \<open>nil\<close> exactly when every call returned \<open>nil\<close>.
\<close>

theorem Reload_collects_failures:
  "\<exists>new. reload_calls (snd (Reload ks ready c)) = reload_calls c @ new \<and>
          positions new = listener_callbacks (ReloadFuncs (Server c)) ks \<and>
          fst (Reload ks ready c) =
            (if failures new = [] then None else Some (MultiError (failures new))) \<and>
          (fst (Reload ks ready c) = None \<longleftrightarrow> (\<forall>(k, i, r)\<in>set new. r = None))"
proof -
  from Reload_char[of ks ready c] obtain new w' where
    1: "Reload ks ready c =
       (if failures new = [] then None else Some (MultiError (failures new)),
        c\<lparr>ReloadedCh := (if ready then ReloadedCh c + 1 else ReloadedCh c),
          world := w', reload_calls := reload_calls c @ new\<rparr>)"
    and 2: "positions new = listener_callbacks (ReloadFuncs (Server c)) ks" by blast
  show ?thesis
    apply (rule exI[of _ new])
    using 1 2 failures_Nil_iff[of new] by simp
qed

lemmas example_defs =
  example_command_def example_server_def example_ReloadFuncs_def example_flags_def
  example_config_def failing_reload_def succeeding_reload_def other_reload_def

lemma example_Reload:
  "Reload [''listener|tcp'', ''telemetry''] True example_command =
     (Some (MultiError [Wrapped ''error encountered reloading listener''
                          (Err ''certificate unreadable'')]),
      example_command\<lparr>ReloadedCh := 1, world := [''certificate reloaded''],
        reload_calls := [(''listener|tcp'', 0, Some (Err ''certificate unreadable'')),
                         (''listener|tcp'', 1, None)]\<rparr>)"
  by (simp add: Reload_def example_defs HasPrefix_def multierror_Append_def ErrorOrNil_def)

theorem Reload_collects_failures_witness:
  "fst (Reload [''listener|tcp'', ''telemetry''] True example_command) =
     Some (MultiError [Wrapped ''error encountered reloading listener''
                         (Err ''certificate unreadable'')]) \<and>
   positions (reload_calls (snd (Reload [''listener|tcp'', ''telemetry''] True example_command))) =
     listener_callbacks example_ReloadFuncs [''listener|tcp'', ''telemetry''] \<and>
   world (snd (Reload [''listener|tcp'', ''telemetry''] True example_command)) =
     [''certificate reloaded'']"
proof -
  let ?r = "Reload [''listener|tcp'', ''telemetry''] True example_command"
  from Reload_collects_failures[of "[''listener|tcp'', ''telemetry'']" True example_command]
  obtain new where
    1: "reload_calls (snd ?r) = reload_calls example_command @ new"
    and 2: "positions new =
              listener_callbacks (ReloadFuncs (Server example_command)) [''listener|tcp'', ''telemetry'']"
    and 3: "fst ?r = (if failures new = [] then None else Some (MultiError (failures new)))"
    by blast
  have e: "reload_calls example_command = []"
    and s: "ReloadFuncs (Server example_command) = example_ReloadFuncs"
    by (simp_all add: example_command_def example_server_def)
  have n: "new = reload_calls (snd ?r)" using 1 by (simp only: e append_Nil)
  have v: "reload_calls (snd ?r) =
      [(''listener|tcp'', 0, Some (Err ''certificate unreadable'')), (''listener|tcp'', 1, None)]"
    by (simp add: example_Reload)
  have f: "failures new = [Wrapped ''error encountered reloading listener''
                             (Err ''certificate unreadable'')]"
    unfolding n v by (simp add: failures_def map_filter_def)
  have a: "fst ?r = Some (MultiError [Wrapped ''error encountered reloading listener''
                         (Err ''certificate unreadable'')])"
    using 3 unfolding f by simp
  have b: "positions (reload_calls (snd ?r)) =
             listener_callbacks example_ReloadFuncs [''listener|tcp'', ''telemetry'']"
    using 2 unfolding s n .
  have c: "world (snd ?r) = [''certificate reloaded'']" by (simp add: example_Reload)
  from a b c show ?thesis by (intro conjI)
qed

lemma key_callbacks_key: "(k', i) \<in> set (key_callbacks m k) \<Longrightarrow> k' = k"
  by (auto simp: key_callbacks_def split: option.splits if_splits)

lemma distinct_key_callbacks: "distinct (key_callbacks m k)"
  by (auto simp: key_callbacks_def distinct_map inj_on_def split: option.splits)

lemma listener_callbacks_key: "(k', i) \<in> set (listener_callbacks m ks) \<Longrightarrow> k' \<in> set ks"
  by (auto simp: listener_callbacks_def dest: key_callbacks_key)

lemma distinct_listener_callbacks: "distinct ks \<Longrightarrow> distinct (listener_callbacks m ks)"
proof (induction ks)
  case Nil
  then show ?case by (simp add: listener_callbacks_def)
next
  case (Cons k ks)
  have "set (key_callbacks m k) \<inter> set (listener_callbacks m ks) = {}"
    using Cons.prems by (auto dest: key_callbacks_key listener_callbacks_key)
  with Cons show ?case
    by (simp add: listener_callbacks_Cons distinct_key_callbacks)
qed

lemma filter_key_callbacks:
  "filter (\<lambda>(k', i). k' = k) (key_callbacks m k') = (if k' = k then key_callbacks m k else [])"
  by (auto simp: filter_empty_conv dest: key_callbacks_key intro!: filter_True)

lemma filter_listener_callbacks:
  "distinct ks \<Longrightarrow> filter (\<lambda>(k', i). k' = k) (listener_callbacks m ks) =
     (if k \<in> set ks then key_callbacks m k else [])"
proof (induction ks)
  case Nil
  then show ?case by (simp add: listener_callbacks_def)
next
  case (Cons a ks)
  then show ?case
    by (auto simp: listener_callbacks_Cons filter_key_callbacks filter_empty_conv
             dest: listener_callbacks_key)
qed

lemma set_listener_callbacks:
  "set (listener_callbacks m ks) =
     {(k, i). k \<in> set ks \<and>
        (\<exists>fs. m k = Some fs \<and> HasPrefix k ''listener|'' \<and> i < length fs \<and> fs ! i \<noteq> None)}"
proof -
  have "set (key_callbacks m k) =
      {(k', i). k' = k \<and>
         (\<exists>fs. m k = Some fs \<and> HasPrefix k ''listener|'' \<and> i < length fs \<and> fs ! i \<noteq> None)}"
    for k
    by (cases "m k") (auto simp: key_callbacks_def)
  then show ?thesis by (auto simp: listener_callbacks_def)
qed

text \<open>
  Claim C7, as amended. When \<open>ks\<close> is an order in which the map visit goes through the
  keys of \<open>ReloadFuncs\<close>, the calls \<open>new\<close> that \<open>Reload\<close> makes are exactly the callbacks that
  are not \<open>nil\<close> of the keys with the prefix \<open>listener|\<close>, each called once, and no callback of
  another key; the callbacks of one key are called in the order of the key's slice, the
  order in which they were appended. The order between two keys is the order of the visit.
\<close>

theorem Reload_invokes_listener_callbacks:
  assumes "map_order (ReloadFuncs (Server c)) ks"
  shows "\<exists>new. reload_calls (snd (Reload ks ready c)) = reload_calls c @ new \<and>
     distinct (positions new) \<and>
     set (positions new) =
       {(k, i). \<exists>fs. ReloadFuncs (Server c) k = Some fs \<and> HasPrefix k ''listener|'' \<and>
                      i < length fs \<and> fs ! i \<noteq> None} \<and>
     (\<forall>k fs. ReloadFuncs (Server c) k = Some fs \<and> HasPrefix k ''listener|'' \<longrightarrow>
        map snd (filter (\<lambda>(k', i). k' = k) (positions new)) =
          filter (\<lambda>i. fs ! i \<noteq> None) [0..<length fs]) \<and>
     map fst (positions new) =
       concat (map (\<lambda>k. map fst (key_callbacks (ReloadFuncs (Server c)) k)) ks)"
proof -
  let ?m = "ReloadFuncs (Server c)"
  from assms have d: "distinct ks" and s: "set ks = dom ?m" by (auto simp: map_order_def)
  from Reload_char[of ks ready c] obtain new w' where
    1: "Reload ks ready c =
       (if failures new = [] then None else Some (MultiError (failures new)),
        c\<lparr>ReloadedCh := (if ready then ReloadedCh c + 1 else ReloadedCh c),
          world := w', reload_calls := reload_calls c @ new\<rparr>)"
    and 2: "positions new = listener_callbacks ?m ks" by blast
  have a: "reload_calls (snd (Reload ks ready c)) = reload_calls c @ new" using 1 by simp
  have b: "distinct (positions new)" using 2 d by (simp add: distinct_listener_callbacks)
  have c: "set (positions new) =
       {(k, i). \<exists>fs. ?m k = Some fs \<and> HasPrefix k ''listener|'' \<and> i < length fs \<and> fs ! i \<noteq> None}"
    unfolding 2 set_listener_callbacks using s by auto
  have e: "map snd (filter (\<lambda>(k', i). k' = k) (positions new)) =
          filter (\<lambda>i. fs ! i \<noteq> None) [0..<length fs]"
    if "?m k = Some fs \<and> HasPrefix k ''listener|''" for k fs
  proof -
    from that s have "k \<in> set ks" by auto
    then have "filter (\<lambda>(k', i). k' = k) (positions new) = key_callbacks ?m k"
      unfolding 2 using d by (simp add: filter_listener_callbacks)
    with that show ?thesis by (simp add: key_callbacks_def comp_def)
  qed
  have f: "map fst (positions new) = concat (map (\<lambda>k. map fst (key_callbacks ?m k)) ks)"
    unfolding 2 listener_callbacks_def by (simp add: map_concat comp_def)
  show ?thesis
    apply (rule exI[of _ new])
    using a b c e f by blast
qed

lemma example_map_order:
  "map_order (ReloadFuncs (Server example_command)) [''listener|tcp'', ''telemetry'']"
  by (simp add: map_order_def example_command_def example_server_def example_ReloadFuncs_def
                insert_commute)

theorem Reload_invokes_listener_callbacks_witness:
  "map_order (ReloadFuncs (Server example_command)) [''listener|tcp'', ''telemetry''] \<and>
   set (positions (reload_calls (snd (Reload [''listener|tcp'', ''telemetry''] True example_command)))) =
     {(k, i). \<exists>fs. ReloadFuncs (Server example_command) k = Some fs \<and>
                    HasPrefix k ''listener|'' \<and> i < length fs \<and> fs ! i \<noteq> None} \<and>
   positions (reload_calls (snd (Reload [''listener|tcp'', ''telemetry''] True example_command))) =
     [(''listener|tcp'', 0), (''listener|tcp'', 1)]"
proof -
  let ?r = "Reload [''listener|tcp'', ''telemetry''] True example_command"
  from Reload_invokes_listener_callbacks[OF example_map_order, of True]
  obtain new where
    1: "reload_calls (snd ?r) = reload_calls example_command @ new"
    and 2: "set (positions new) =
       {(k, i). \<exists>fs. ReloadFuncs (Server example_command) k = Some fs \<and>
                      HasPrefix k ''listener|'' \<and> i < length fs \<and> fs ! i \<noteq> None}"
    by blast
  have e: "reload_calls example_command = []" by (simp add: example_command_def)
  have n: "new = reload_calls (snd ?r)" using 1 by (simp only: e append_Nil)
  have p: "positions (reload_calls (snd ?r)) = [(''listener|tcp'', 0), (''listener|tcp'', 1)]"
    by (simp add: example_Reload positions_def)
  from example_map_order 2[unfolded n] p show ?thesis by (intro conjI)
qed

text \<open>
  Claim C7 as stated fails: \<open>Reload\<close> does not call the callbacks in the order of their
  registration. With one callback under \<open>listener|tcp\<close> and one under \<open>listener|unix\<close>, both
  orders of the two keys are orders of the same map, and the two visits call the two
  callbacks in opposite orders; at most one of them is the order of registration.
\<close>

theorem Reload_order_counterexample:
  "map_order (ReloadFuncs (Server two_key_command)) [''listener|tcp'', ''listener|unix''] \<and>
   map_order (ReloadFuncs (Server two_key_command)) [''listener|unix'', ''listener|tcp''] \<and>
   reload_calls (snd (Reload [''listener|tcp'', ''listener|unix''] True two_key_command)) =
     [(''listener|tcp'', 0, None), (''listener|unix'', 0, None)] \<and>
   world (snd (Reload [''listener|tcp'', ''listener|unix''] True two_key_command)) =
     [''tcp'', ''unix''] \<and>
   reload_calls (snd (Reload [''listener|unix'', ''listener|tcp''] True two_key_command)) =
     [(''listener|unix'', 0, None), (''listener|tcp'', 0, None)] \<and>
   world (snd (Reload [''listener|unix'', ''listener|tcp''] True two_key_command)) =
     [''unix'', ''tcp'']"
proof -
  have s: "ReloadFuncs (Server two_key_command) =
             [''listener|tcp'' \<mapsto> [Some tcp_reload], ''listener|unix'' \<mapsto> [Some unix_reload]]"
    and w: "world two_key_command = []" and r: "reload_calls two_key_command = []"
    by (simp_all add: two_key_command_def example_command_def example_server_def)
  have 1: "map_order (ReloadFuncs (Server two_key_command)) [''listener|tcp'', ''listener|unix'']"
    unfolding s by (simp add: map_order_def insert_commute)
  have 2: "map_order (ReloadFuncs (Server two_key_command)) [''listener|unix'', ''listener|tcp'']"
    unfolding s by (simp add: map_order_def insert_commute)
  have 3: "range_ReloadFuncs (ReloadFuncs (Server two_key_command))
             [''listener|tcp'', ''listener|unix''] (None, [], []) =
           (None, [''tcp'', ''unix''], [(''listener|tcp'', 0, None), (''listener|unix'', 0, None)])"
    unfolding s by (simp add: HasPrefix_def tcp_reload_def unix_reload_def)
  have 4: "range_ReloadFuncs (ReloadFuncs (Server two_key_command))
             [''listener|unix'', ''listener|tcp''] (None, [], []) =
           (None, [''unix'', ''tcp''], [(''listener|unix'', 0, None), (''listener|tcp'', 0, None)])"
    unfolding s by (simp add: HasPrefix_def tcp_reload_def unix_reload_def)
  have 5: "Reload [''listener|tcp'', ''listener|unix''] True two_key_command =
             (None, two_key_command\<lparr>ReloadedCh := ReloadedCh two_key_command + 1,
                world := [''tcp'', ''unix''],
                reload_calls := [(''listener|tcp'', 0, None), (''listener|unix'', 0, None)]\<rparr>)"
    unfolding Reload_def w r 3 by (simp add: ErrorOrNil_def)
  have 6: "Reload [''listener|unix'', ''listener|tcp''] True two_key_command =
             (None, two_key_command\<lparr>ReloadedCh := ReloadedCh two_key_command + 1,
                world := [''unix'', ''tcp''],
                reload_calls := [(''listener|unix'', 0, None), (''listener|tcp'', 0, None)]\<rparr>)"
    unfolding Reload_def w r 4 by (simp add: ErrorOrNil_def)
  show ?thesis
    using 1 2 unfolding 5 6 by simp
qed

section \<open>Properties of the event loop\<close>

lemma loop_frame_refl: "loop_frame c c"
  by (simp add: loop_frame_def)

lemma loop_frame_trans: "loop_frame a b \<Longrightarrow> loop_frame b c \<Longrightarrow> loop_frame a c"
  by (simp add: loop_frame_def)

lemma log_or_panic_loop_frame:
  "log_or_panic entry c = Inl c' \<or> log_or_panic entry c = Inr c' \<Longrightarrow> loop_frame c c'"
  by (auto simp: log_or_panic_def logger_call_def loop_frame_def split: option.splits)

lemma Reload_loop_frame: "loop_frame c (snd (Reload ks ready c))"
  by (auto simp: Reload_def loop_frame_def split: prod.splits)

lemma ui_loop_frame:
  "loop_frame c (ui_Output m c)" "loop_frame c (ui_Error e c)" "loop_frame c (ui_Warn m c)"
  by (simp_all add: loop_frame_def ui_Output_def ui_Error_def ui_Warn_def)

lemma reload_config_loop_frame:
  "reload_config loaded c = Inl c' \<or> reload_config loaded c = Inr c' \<Longrightarrow> loop_frame c c'"
  unfolding reload_config_def
  by (auto split: if_splits prod.splits option.splits
           dest: log_or_panic_loop_frame[OF disjI1] log_or_panic_loop_frame[OF disjI2]
           simp: loop_frame_refl)
     (simp_all add: loop_frame_def SetLogLevel_def)

lemma handle_sighup_loop_frame:
  assumes "handle_sighup env c = Inl c' \<or> handle_sighup env c = Inr c'"
  shows "loop_frame c c'"
proof -
  let ?c0 = "ui_Output ''==> Watchtower controller reload triggered'' c"
  have 0: "loop_frame c ?c0" by (rule ui_loop_frame)
  show ?thesis
  proof (cases "reload_config (loadFile env) ?c0")
    case (Inl c1)
    with assms have "c' = c1" by (simp add: handle_sighup_def)
    with Inl reload_config_loop_frame[of "loadFile env" ?c0 c1] 0 show ?thesis
      by (auto intro: loop_frame_trans)
  next
    case (Inr c1)
    then have 1: "loop_frame ?c0 c1"
      using reload_config_loop_frame[of "loadFile env" ?c0 c1] by simp
    obtain err c2 where r: "Reload (visit_order env) (ReloadedCh_ready env) c1 = (err, c2)"
      by (cases "Reload (visit_order env) (ReloadedCh_ready env) c1")
    then have 2: "loop_frame c1 c2"
      using Reload_loop_frame[of c1 "visit_order env" "ReloadedCh_ready env"] by simp
    have 3: "loop_frame c2 c'"
      using assms Inr r
      by (cases err) (auto simp: handle_sighup_def ui_loop_frame loop_frame_refl)
    from 0 1 2 3 show ?thesis by (blast intro: loop_frame_trans)
  qed
qed

lemma handle_sigusr2_loop_frame:
  "handle_sigusr2 stack c = Inl c' \<or> handle_sigusr2 stack c = Inr c' \<Longrightarrow> loop_frame c c'"
  unfolding handle_sigusr2_def by (rule log_or_panic_loop_frame)

lemma handle_shutdown_Some:
  assumes "controller c = Some ctl"
  shows "\<exists>c'. handle_shutdown r c = Inr c' \<and> cleanupGuard c' = cleanupGuard c \<and>
           Config c' = Config c \<and> shutdown_run c' = shutdown_run c \<and> Server c' = Server c \<and>
           controller c' = Some (ctl\<lparr>stops := stops ctl + 1\<rparr>)"
  using assms
  by (cases r)
     (auto simp: handle_shutdown_def Controller_Shutdown_def ui_Output_def ui_Error_def Let_def)

text \<open>
  A call of \<open>WaitForInterrupt\<close> that returns has taken a non-empty prefix \<open>pre\<close> of the
  events. No event of \<open>pre\<close> but the last is a shutdown trigger. Either the call returns 0,
  the last event of \<open>pre\<close> is a shutdown trigger and the listeners were stopped once; or the
  call panics, \<open>pre\<close> holds no shutdown trigger and the listeners were not stopped.
\<close>

lemma WaitForInterrupt_char:
  assumes "WaitForInterrupt c evs = Some (out, c', rest)" and "controller c = Some ctl"
  shows "cleanupGuard c' = cleanupGuard c \<and> Config c' = Config c \<and>
         shutdown_run c' = shutdown_run c \<and>
         ShutdownFuncs (Server c') = ShutdownFuncs (Server c) \<and>
         (\<exists>pre. evs = pre @ rest \<and> pre \<noteq> [] \<and> (\<forall>r. ShutdownCh r \<notin> set (butlast pre)) \<and>
            (out = Exit 0 \<and> (\<exists>r. last pre = ShutdownCh r) \<and>
               controller c' = Some (ctl\<lparr>stops := stops ctl + 1\<rparr>)
             \<or> out = Panic \<and> (\<forall>r. last pre \<noteq> ShutdownCh r) \<and> controller c' = Some ctl))"
  using assms
proof (induction c evs rule: WaitForInterrupt.induct)
  case (1 c)
  then show ?case by simp
next
  case (2 c r evs)
  from handle_shutdown_Some[OF 2(2), of r] obtain c1 where
    h: "handle_shutdown r c = Inr c1" "cleanupGuard c1 = cleanupGuard c" "Config c1 = Config c"
       "shutdown_run c1 = shutdown_run c" "Server c1 = Server c"
       "controller c1 = Some (ctl\<lparr>stops := stops ctl + 1\<rparr>)" by blast
  with 2(1) have "out = Exit 0" "c' = c1" "rest = evs" by auto
  with h show ?case by (auto intro!: exI[of _ "[ShutdownCh r]"])
next
  case (3 c env evs)
  show ?case
  proof (cases "handle_sighup env c")
    case (Inl c1)
    with 3(2) have o: "out = Panic" "c' = c1" "rest = evs" by auto
    from Inl have "loop_frame c c1" by (auto intro: handle_sighup_loop_frame)
    with o 3(3) show ?thesis
      by (auto simp: loop_frame_def intro!: exI[of _ "[SighupCh env]"])
  next
    case (Inr c1)
    then have f: "loop_frame c c1" by (auto intro: handle_sighup_loop_frame)
    with 3(3) have ctl: "controller c1 = Some ctl" by (simp add: loop_frame_def)
    from 3(2) Inr have w: "WaitForInterrupt c1 evs = Some (out, c', rest)" by simp
    from 3(1)[OF Inr w ctl] obtain pre where
      ih: "cleanupGuard c' = cleanupGuard c1" "Config c' = Config c1"
          "shutdown_run c' = shutdown_run c1"
          "ShutdownFuncs (Server c') = ShutdownFuncs (Server c1)"
          "evs = pre @ rest" "pre \<noteq> []" "\<forall>r. ShutdownCh r \<notin> set (butlast pre)"
          "out = Exit 0 \<and> (\<exists>r. last pre = ShutdownCh r) \<and>
               controller c' = Some (ctl\<lparr>stops := stops ctl + 1\<rparr>)
           \<or> out = Panic \<and> (\<forall>r. last pre \<noteq> ShutdownCh r) \<and> controller c' = Some ctl"
      by blast
    show ?thesis
      apply (intro conjI exI[of _ "SighupCh env # pre"])
      using ih f by (auto simp: loop_frame_def)
  qed
next
  case (4 c stack evs)
  show ?case
  proof (cases "handle_sigusr2 stack c")
    case (Inl c1)
    with 4(2) have o: "out = Panic" "c' = c1" "rest = evs" by auto
    from Inl have "loop_frame c c1" by (auto intro: handle_sigusr2_loop_frame)
    with o 4(3) show ?thesis
      by (auto simp: loop_frame_def intro!: exI[of _ "[SigUSR2Ch stack]"])
  next
    case (Inr c1)
    then have f: "loop_frame c c1" by (auto intro: handle_sigusr2_loop_frame)
    with 4(3) have ctl: "controller c1 = Some ctl" by (simp add: loop_frame_def)
    from 4(2) Inr have w: "WaitForInterrupt c1 evs = Some (out, c', rest)" by simp
    from 4(1)[OF Inr w ctl] obtain pre where
      ih: "cleanupGuard c' = cleanupGuard c1" "Config c' = Config c1"
          "shutdown_run c' = shutdown_run c1"
          "ShutdownFuncs (Server c') = ShutdownFuncs (Server c1)"
          "evs = pre @ rest" "pre \<noteq> []" "\<forall>r. ShutdownCh r \<notin> set (butlast pre)"
          "out = Exit 0 \<and> (\<exists>r. last pre = ShutdownCh r) \<and>
               controller c' = Some (ctl\<lparr>stops := stops ctl + 1\<rparr>)
           \<or> out = Panic \<and> (\<forall>r. last pre \<noteq> ShutdownCh r) \<and> controller c' = Some ctl"
      by blast
    show ?thesis
      apply (intro conjI exI[of _ "SigUSR2Ch stack # pre"])
      using ih f by (auto simp: loop_frame_def)
  qed
qed

lemma WaitForInterrupt_returns:
  "ShutdownCh r \<in> set evs \<Longrightarrow> WaitForInterrupt c evs \<noteq> None"
  by (induction c evs rule: WaitForInterrupt.induct) (auto split: sum.splits)

text \<open>
  Claim C1, as amended. Take a call of \<open>WaitForInterrupt\<close> on a command that has its
  controller. If a shutdown trigger is among the events, the call returns. When it returns
  0, it has taken the events up to the first shutdown trigger, \<open>Shutdown\<close> has stopped the
  listeners exactly once, and the triggers after the first are left untaken in \<open>rest\<close>; when
  it ends in a panic (of a logger call), no shutdown trigger was taken and the listeners
  were not stopped. The one-shot guard takes no part: \<open>cleanupGuard\<close> is as it was.
\<close>

theorem WaitForInterrupt_shuts_down_once:
  assumes "controller c = Some ctl"
  shows "((\<exists>r. ShutdownCh r \<in> set evs) \<longrightarrow> WaitForInterrupt c evs \<noteq> None) \<and>
         (\<forall>out c' rest. WaitForInterrupt c evs = Some (out, c', rest) \<longrightarrow>
            cleanupGuard c' = cleanupGuard c \<and>
            (\<exists>pre. evs = pre @ rest \<and> pre \<noteq> [] \<and> (\<forall>r. ShutdownCh r \<notin> set (butlast pre)) \<and>
               (out = Exit 0 \<and> (\<exists>r. last pre = ShutdownCh r) \<and>
                  controller c' = Some (ctl\<lparr>stops := stops ctl + 1\<rparr>)
                \<or> out = Panic \<and> (\<forall>r. last pre \<noteq> ShutdownCh r) \<and> controller c' = Some ctl)))"
proof (intro conjI allI impI)
  assume "\<exists>r. ShutdownCh r \<in> set evs"
  then obtain r where "ShutdownCh r \<in> set evs" ..
  then show "WaitForInterrupt c evs \<noteq> None" by (rule WaitForInterrupt_returns)
next
  fix out c' rest
  assume w: "WaitForInterrupt c evs = Some (out, c', rest)"
  from WaitForInterrupt_char[OF w assms] show "cleanupGuard c' = cleanupGuard c" by blast
  from WaitForInterrupt_char[OF w assms]
  show "\<exists>pre. evs = pre @ rest \<and> pre \<noteq> [] \<and> (\<forall>r. ShutdownCh r \<notin> set (butlast pre)) \<and>
               (out = Exit 0 \<and> (\<exists>r. last pre = ShutdownCh r) \<and>
                  controller c' = Some (ctl\<lparr>stops := stops ctl + 1\<rparr>)
                \<or> out = Panic \<and> (\<forall>r. last pre \<noteq> ShutdownCh r) \<and> controller c' = Some ctl)"
    by blast
qed

lemma example_WaitForInterrupt:
  "WaitForInterrupt example_command
     [SigUSR2Ch ''goroutine 1 [running]'', ShutdownCh None, ShutdownCh None] =
   Some (Exit 0,
         example_command
           \<lparr>controller := Some \<lparr>RawConfig = example_config, starts = 1, stops = 1\<rparr>,
            Server := example_server\<lparr>Logger :=
              Some [Log_Info ''goroutine trace'' [(''stack'', S ''goroutine 1 [running]'')]]\<rparr>,
            UI := [UI_Output ''==> Watchtower controller shutdown triggered'']\<rparr>,
         [ShutdownCh None])"
  by (simp add: example_command_def example_server_def handle_sigusr2_def log_or_panic_def
        logger_call_def handle_shutdown_def Controller_Shutdown_def ui_Output_def Let_def)

theorem WaitForInterrupt_shuts_down_once_witness:
  "controller example_command = Some \<lparr>RawConfig = example_config, starts = 1, stops = 0\<rparr> \<and>
   (\<exists>c'. WaitForInterrupt example_command
            [SigUSR2Ch ''goroutine 1 [running]'', ShutdownCh None, ShutdownCh None] =
            Some (Exit 0, c', [ShutdownCh None]) \<and>
          cleanupGuard c' = cleanupGuard example_command \<and>
          controller c' = Some \<lparr>RawConfig = example_config, starts = 1, stops = 1\<rparr>)"
proof -
  let ?ctl = "\<lparr>RawConfig = example_config, starts = 1, stops = 0\<rparr>"
  let ?evs = "[SigUSR2Ch ''goroutine 1 [running]'', ShutdownCh None, ShutdownCh None]"
  have c: "controller example_command = Some ?ctl" by (simp add: example_command_def)
  obtain c' where w: "WaitForInterrupt example_command ?evs = Some (Exit 0, c', [ShutdownCh None])"
    using example_WaitForInterrupt by blast
  from WaitForInterrupt_shuts_down_once[OF c, of ?evs, THEN conjunct2, THEN spec, THEN spec,
         THEN spec, THEN mp, OF w]
  have g: "cleanupGuard c' = cleanupGuard example_command"
    and "\<exists>pre. ?evs = pre @ [ShutdownCh None] \<and> pre \<noteq> [] \<and>
               (\<forall>r. ShutdownCh r \<notin> set (butlast pre)) \<and>
               (Exit 0 = Exit 0 \<and> (\<exists>r. last pre = ShutdownCh r) \<and>
                  controller c' = Some (?ctl\<lparr>stops := stops ?ctl + 1\<rparr>)
                \<or> Exit 0 = Panic \<and> (\<forall>r. last pre \<noteq> ShutdownCh r) \<and> controller c' = Some ?ctl)"
    by (rule conjunct1, rule conjunct2)
  then have "controller c' = Some (?ctl\<lparr>stops := stops ?ctl + 1\<rparr>)" by auto
  then have s: "controller c' = Some \<lparr>RawConfig = example_config, starts = 1, stops = 1\<rparr>" by simp
  from c w g s show ?thesis by blast
qed

text \<open>
  Claim C1 as stated fails: \<open>Shutdown\<close> is not invoked under the one-shot guard. After
  a call that took a shutdown trigger the guard is still unused, a second shutdown trigger
  is left untaken, and the call of \<open>WaitForInterrupt\<close> that takes it stops the listeners a
  second time.
\<close>

theorem cleanupGuard_unused_counterexample:
  "map_option (\<lambda>(out, c', rest). (out, cleanupGuard c', map_option stops (controller c'), rest))
     (WaitForInterrupt example_command [ShutdownCh None, ShutdownCh None]) =
     Some (Exit 0, False, Some 1, [ShutdownCh None]) \<and>
   map_option (\<lambda>(out, c', rest). (out, cleanupGuard c', map_option stops (controller c'), rest))
     (Option.bind (WaitForInterrupt example_command [ShutdownCh None, ShutdownCh None])
        (\<lambda>(out, c', rest). WaitForInterrupt c' rest)) =
     Some (Exit 0, False, Some 2, [])"
  by (simp add: example_command_def handle_shutdown_def Controller_Shutdown_def ui_Output_def
        Let_def)

text \<open>The calls recorded only grow while the loop runs.\<close>

lemma log_or_panic_calls:
  "log_or_panic entry c = Inl c' \<or> log_or_panic entry c = Inr c' \<Longrightarrow>
     reload_calls c' = reload_calls c"
  by (auto simp: log_or_panic_def logger_call_def split: option.splits)

lemma reload_config_calls:
  "reload_config loaded c = Inl c' \<or> reload_config loaded c = Inr c' \<Longrightarrow>
     reload_calls c' = reload_calls c"
  unfolding reload_config_def
  by (auto split: if_splits prod.splits option.splits
           dest: log_or_panic_calls[OF disjI1] log_or_panic_calls[OF disjI2])

lemma handle_sighup_calls:
  assumes "handle_sighup env c = Inl c' \<or> handle_sighup env c = Inr c'"
  shows "\<exists>more. reload_calls c' = reload_calls c @ more"
proof -
  let ?c0 = "ui_Output ''==> Watchtower controller reload triggered'' c"
  have 0: "reload_calls ?c0 = reload_calls c" by (simp add: ui_Output_def)
  show ?thesis
  proof (cases "reload_config (loadFile env) ?c0")
    case (Inl c1)
    with assms have "c' = c1" by (simp add: handle_sighup_def)
    with Inl reload_config_calls[of "loadFile env" ?c0 c1] 0 show ?thesis by simp
  next
    case (Inr c1)
    then have 1: "reload_calls c1 = reload_calls c"
      using reload_config_calls[of "loadFile env" ?c0 c1] 0 by simp
    obtain err c2 where r: "Reload (visit_order env) (ReloadedCh_ready env) c1 = (err, c2)"
      by (cases "Reload (visit_order env) (ReloadedCh_ready env) c1")
    from Reload_char[of "visit_order env" "ReloadedCh_ready env" c1] r obtain new where
      2: "reload_calls c2 = reload_calls c1 @ new" by auto
    have 3: "reload_calls c' = reload_calls c2"
      using assms Inr r by (cases err) (auto simp: handle_sighup_def ui_Error_def)
    from 1 2 3 show ?thesis by simp
  qed
qed

lemma handle_shutdown_calls:
  "handle_shutdown r c = Inl c' \<or> handle_shutdown r c = Inr c' \<Longrightarrow>
     reload_calls c' = reload_calls c"
  by (auto simp: handle_shutdown_def Controller_Shutdown_def ui_Output_def ui_Error_def Let_def
           split: option.splits)

lemma WaitForInterrupt_calls:
  "WaitForInterrupt c evs = Some (out, c', rest) \<Longrightarrow>
     \<exists>more. reload_calls c' = reload_calls c @ more"
proof (induction c evs rule: WaitForInterrupt.induct)
  case (1 c)
  then show ?case by simp
next
  case (2 c r evs)
  then show ?case
    using handle_shutdown_calls[of r c c'] by (auto split: sum.splits)
next
  case (3 c env evs)
  show ?case
  proof (cases "handle_sighup env c")
    case (Inl c1)
    with 3(2) have "c' = c1" by simp
    with Inl handle_sighup_calls[of env c c1] show ?thesis by simp
  next
    case (Inr c1)
    with 3(2) have "WaitForInterrupt c1 evs = Some (out, c', rest)" by simp
    from 3(1)[OF Inr this] obtain m2 where m2: "reload_calls c' = reload_calls c1 @ m2" by blast
    from Inr handle_sighup_calls[of env c c1] obtain m1 where
      "reload_calls c1 = reload_calls c @ m1" by auto
    with m2 show ?thesis by simp
  qed
next
  case (4 c stack evs)
  show ?case
  proof (cases "handle_sigusr2 stack c")
    case (Inl c1)
    with 4(2) have "c' = c1" by simp
    moreover from Inl have "reload_calls c1 = reload_calls c"
      unfolding handle_sigusr2_def by (rule log_or_panic_calls[OF disjI1])
    ultimately show ?thesis by simp
  next
    case (Inr c1)
    with 4(2) have "WaitForInterrupt c1 evs = Some (out, c', rest)" by simp
    from 4(1)[OF Inr this] obtain m2 where m2: "reload_calls c' = reload_calls c1 @ m2" by blast
    from Inr have "reload_calls c1 = reload_calls c"
      unfolding handle_sigusr2_def by (rule log_or_panic_calls[OF disjI2])
    with m2 show ?thesis by simp
  qed
qed

text \<open>
  Claim C6, as amended. Take a reload trigger handled when no configuration path is
  set, or, on a command that has its logger, when \<open>config.LoadFile\<close> returns an error or
  returns neither a configuration nor an error. The part of the handler before
  \<open>RUNRELOADFUNCS\<close> then changes nothing but the log (the failure is logged in the last two
  cases), the handler goes on to \<open>Reload\<close>, which calls every callback of the visited
  listener keys, and the handler does not fail: it leaves the command \<open>c3\<close>. The loop does
  not return at this event: alone, the event leaves the call waiting; followed by a
  shutdown trigger, the call takes that trigger on \<open>c3\<close>; followed by any events, the call
  goes on with them from \<open>c3\<close>, and the calls of the callbacks are still recorded when it
  returns.
\<close>

theorem reload_trigger_without_config_runs_callbacks:
  assumes "flagConfig (flags c) = [] \<or>
           Logger (Server c) \<noteq> None \<and> (snd (loadFile env) \<noteq> None \<or> loadFile env = (None, None))"
  shows "\<exists>c1 err c2 c3.
           reload_config (loadFile env)
             (ui_Output ''==> Watchtower controller reload triggered'' c) = Inr c1 \<and>
           Logger (Server c1) =
             (if flagConfig (flags c) = [] then Logger (Server c)
              else if snd (loadFile env) \<noteq> None
                then map_option (\<lambda>entries. entries @
                       [Log_Error ''could not reload config''
                          [(''path'', S (flagConfig (flags c))),
                           (''error'', E (the (snd (loadFile env))))]]) (Logger (Server c))
                else map_option (\<lambda>entries. entries @
                       [Log_Error ''no config found at reload time'' []]) (Logger (Server c))) \<and>
           AllLoggers (Server c1) = AllLoggers (Server c) \<and>
           Reload (visit_order env) (ReloadedCh_ready env) c1 = (err, c2) \<and>
           positions (drop (length (reload_calls c)) (reload_calls c2)) =
             listener_callbacks (ReloadFuncs (Server c)) (visit_order env) \<and>
           c3 = (case err of None \<Rightarrow> c2
                 | Some e \<Rightarrow>
                     ui_Error (Wrapped ''Error(s) were encountered during controller reload'' e) c2) \<and>
           handle_sighup env c = Inr c3 \<and>
           WaitForInterrupt c [SighupCh env] = None \<and>
           (\<forall>r rest. WaitForInterrupt c (SighupCh env # ShutdownCh r # rest) =
              (case handle_shutdown r c3 of
                 Inl c4 \<Rightarrow> Some (Panic, c4, rest)
               | Inr c4 \<Rightarrow> Some (Exit 0, c4, rest))) \<and>
           (\<forall>evs. WaitForInterrupt c (SighupCh env # evs) = WaitForInterrupt c3 evs) \<and>
           (\<forall>evs out c' rest. WaitForInterrupt c (SighupCh env # evs) = Some (out, c', rest) \<longrightarrow>
              (\<exists>more. reload_calls c' = reload_calls c2 @ more))"
proof -
  let ?c0 = "ui_Output ''==> Watchtower controller reload triggered'' c"
  obtain newConf lerr where lf: "loadFile env = (newConf, lerr)" by (cases "loadFile env")
  have "\<exists>c1. reload_config (loadFile env) ?c0 = Inr c1 \<and>
           Logger (Server c1) =
             (if flagConfig (flags c) = [] then Logger (Server c)
              else if snd (loadFile env) \<noteq> None
                then map_option (\<lambda>entries. entries @
                       [Log_Error ''could not reload config''
                          [(''path'', S (flagConfig (flags c))),
                           (''error'', E (the (snd (loadFile env))))]]) (Logger (Server c))
                else map_option (\<lambda>entries. entries @
                       [Log_Error ''no config found at reload time'' []]) (Logger (Server c))) \<and>
           AllLoggers (Server c1) = AllLoggers (Server c) \<and>
           reload_calls c1 = reload_calls c \<and> ReloadFuncs (Server c1) = ReloadFuncs (Server c)"
    using assms lf
    by (auto simp: reload_config_def log_or_panic_def logger_call_def ui_Output_def
             split: option.splits)
  then obtain c1 where
    1: "reload_config (loadFile env) ?c0 = Inr c1"
    and 2: "Logger (Server c1) =
             (if flagConfig (flags c) = [] then Logger (Server c)
              else if snd (loadFile env) \<noteq> None
                then map_option (\<lambda>entries. entries @
                       [Log_Error ''could not reload config''
                          [(''path'', S (flagConfig (flags c))),
                           (''error'', E (the (snd (loadFile env))))]]) (Logger (Server c))
                else map_option (\<lambda>entries. entries @
                       [Log_Error ''no config found at reload time'' []]) (Logger (Server c)))"
    and 3: "AllLoggers (Server c1) = AllLoggers (Server c)"
    and 4: "reload_calls c1 = reload_calls c"
    and 5: "ReloadFuncs (Server c1) = ReloadFuncs (Server c)" by blast
  obtain err c2 where r: "Reload (visit_order env) (ReloadedCh_ready env) c1 = (err, c2)"
    by (cases "Reload (visit_order env) (ReloadedCh_ready env) c1")
  from Reload_char[of "visit_order env" "ReloadedCh_ready env" c1] r obtain new where
    6: "reload_calls c2 = reload_calls c1 @ new"
    and 7: "positions new = listener_callbacks (ReloadFuncs (Server c1)) (visit_order env)"
    by auto
  have 8: "positions (drop (length (reload_calls c)) (reload_calls c2)) =
             listener_callbacks (ReloadFuncs (Server c)) (visit_order env)"
    using 4 5 6 7 by simp
  define c3 where "c3 = (case err of None \<Rightarrow> c2
             | Some e \<Rightarrow>
                 ui_Error (Wrapped ''Error(s) were encountered during controller reload'' e) c2)"
  have 9: "handle_sighup env c = Inr c3"
    using 1 r by (cases err) (simp_all add: handle_sighup_def c3_def)
  have 10: "WaitForInterrupt c [SighupCh env] = None" using 9 by simp
  have 11: "\<forall>r rest. WaitForInterrupt c (SighupCh env # ShutdownCh r # rest) =
              (case handle_shutdown r c3 of
                 Inl c4 \<Rightarrow> Some (Panic, c4, rest)
               | Inr c4 \<Rightarrow> Some (Exit 0, c4, rest))"
    using 9 by simp
  have 12: "\<forall>evs. WaitForInterrupt c (SighupCh env # evs) = WaitForInterrupt c3 evs"
    using 9 by simp
  have c3calls: "reload_calls c3 = reload_calls c2"
    by (cases err) (simp_all add: c3_def ui_Error_def)
  have 13: "\<forall>evs out c' rest. WaitForInterrupt c (SighupCh env # evs) = Some (out, c', rest) \<longrightarrow>
              (\<exists>more. reload_calls c' = reload_calls c2 @ more)"
  proof (intro allI impI)
    fix evs out c' rest
    assume "WaitForInterrupt c (SighupCh env # evs) = Some (out, c', rest)"
    with 12 have "WaitForInterrupt c3 evs = Some (out, c', rest)" by simp
    from WaitForInterrupt_calls[OF this] c3calls
    show "\<exists>more. reload_calls c' = reload_calls c2 @ more" by simp
  qed
  show ?thesis
    apply (rule exI[of _ c1], rule exI[of _ err], rule exI[of _ c2], rule exI[of _ c3])
    using 1 2 3 r 8 c3_def 9 10 11 12 13 by (intro conjI)
qed

lemma example_handle_sighup:
  "handle_sighup failed_load config_path_command =
     Inr (config_path_command
           \<lparr>Server := example_server\<lparr>Logger :=
              Some [Log_Error ''could not reload config''
                      [(''path'', S ''/etc/watchtower/controller.hcl''),
                       (''error'', E (Err ''open /etc/watchtower/controller.hcl: no such file''))]]\<rparr>,
            UI := [UI_Output ''==> Watchtower controller reload triggered'',
                   UI_Error (Wrapped ''Error(s) were encountered during controller reload''
                      (MultiError [Wrapped ''error encountered reloading listener''
                                     (Err ''certificate unreadable'')]))],
            ReloadedCh := 1, world := [''certificate reloaded''],
            reload_calls := [(''listener|tcp'', 0, Some (Err ''certificate unreadable'')),
                             (''listener|tcp'', 1, None)]\<rparr>)"
  by (simp add: handle_sighup_def reload_config_def log_or_panic_def logger_call_def
        ui_Output_def ui_Error_def config_path_command_def failed_load_def example_defs
        Reload_def HasPrefix_def multierror_Append_def ErrorOrNil_def)

theorem reload_trigger_without_config_runs_callbacks_witness:
  "flagConfig (flags config_path_command) \<noteq> [] \<and>
   Logger (Server config_path_command) \<noteq> None \<and>
   snd (loadFile failed_load) \<noteq> None \<and>
   WaitForInterrupt config_path_command [SighupCh failed_load] = None \<and>
   (\<exists>c'. WaitForInterrupt config_path_command [SighupCh failed_load, ShutdownCh None] =
            Some (Exit 0, c', []) \<and>
          world c' = [''certificate reloaded''] \<and>
          reload_calls c' = [(''listener|tcp'', 0, Some (Err ''certificate unreadable'')),
                             (''listener|tcp'', 1, None)] \<and>
          Logger (Server c') =
            Some [Log_Error ''could not reload config''
                    [(''path'', S ''/etc/watchtower/controller.hcl''),
                     (''error'', E (Err ''open /etc/watchtower/controller.hcl: no such file''))]] \<and>
          map_option stops (controller c') = Some 1)"
proof -
  have a: "flagConfig (flags config_path_command) \<noteq> []"
    and b: "Logger (Server config_path_command) \<noteq> None"
    and c: "snd (loadFile failed_load) \<noteq> None"
    by (simp_all add: config_path_command_def failed_load_def example_defs)
  then have h: "flagConfig (flags config_path_command) = [] \<or>
           Logger (Server config_path_command) \<noteq> None \<and>
           (snd (loadFile failed_load) \<noteq> None \<or> loadFile failed_load = (None, None))"
    by blast
  from reload_trigger_without_config_runs_callbacks[OF h]
  obtain c3 where
    1: "handle_sighup failed_load config_path_command = Inr c3"
    and 2: "WaitForInterrupt config_path_command [SighupCh failed_load] = None"
    and 3: "\<forall>r rest. WaitForInterrupt config_path_command
                        (SighupCh failed_load # ShutdownCh r # rest) =
              (case handle_shutdown r c3 of
                 Inl c4 \<Rightarrow> Some (Panic, c4, rest)
               | Inr c4 \<Rightarrow> Some (Exit 0, c4, rest))"
    by blast
  from 1 have c3: "c3 = config_path_command
           \<lparr>Server := example_server\<lparr>Logger :=
              Some [Log_Error ''could not reload config''
                      [(''path'', S ''/etc/watchtower/controller.hcl''),
                       (''error'', E (Err ''open /etc/watchtower/controller.hcl: no such file''))]]\<rparr>,
            UI := [UI_Output ''==> Watchtower controller reload triggered'',
                   UI_Error (Wrapped ''Error(s) were encountered during controller reload''
                      (MultiError [Wrapped ''error encountered reloading listener''
                                     (Err ''certificate unreadable'')]))],
            ReloadedCh := 1, world := [''certificate reloaded''],
            reload_calls := [(''listener|tcp'', 0, Some (Err ''certificate unreadable'')),
                             (''listener|tcp'', 1, None)]\<rparr>"
    unfolding example_handle_sighup by simp
  have 4: "\<exists>c4. handle_shutdown None c3 = Inr c4 \<and>
          world c4 = [''certificate reloaded''] \<and>
          reload_calls c4 = [(''listener|tcp'', 0, Some (Err ''certificate unreadable'')),
                             (''listener|tcp'', 1, None)] \<and>
          Logger (Server c4) =
            Some [Log_Error ''could not reload config''
                    [(''path'', S ''/etc/watchtower/controller.hcl''),
                     (''error'', E (Err ''open /etc/watchtower/controller.hcl: no such file''))]] \<and>
          map_option stops (controller c4) = Some 1"
    unfolding c3
    by (simp add: handle_shutdown_def Controller_Shutdown_def ui_Output_def Let_def
          config_path_command_def example_command_def example_server_def)
  then obtain c4 where 5: "handle_shutdown None c3 = Inr c4"
    and 6: "world c4 = [''certificate reloaded'']"
    and 7: "reload_calls c4 = [(''listener|tcp'', 0, Some (Err ''certificate unreadable'')),
                             (''listener|tcp'', 1, None)]"
    and 8: "Logger (Server c4) =
            Some [Log_Error ''could not reload config''
                    [(''path'', S ''/etc/watchtower/controller.hcl''),
                     (''error'', E (Err ''open /etc/watchtower/controller.hcl: no such file''))]]"
    and 9: "map_option stops (controller c4) = Some 1" by blast
  from 3[THEN spec, THEN spec, of None "[]"] 5
  have 10: "WaitForInterrupt config_path_command [SighupCh failed_load, ShutdownCh None] =
              Some (Exit 0, c4, [])" by simp
  from a b c 2 10 6 7 8 9 show ?thesis by blast
qed

text \<open>
  Claim C6 as stated fails when the command has no logger: the configuration file cannot
  be read, the call that logs the failure panics, no reload callback is called, and the
  call of \<open>WaitForInterrupt\<close> ends there, with the next event not taken.
\<close>

theorem reload_without_logger_counterexample:
  "flagConfig (flags no_logger_command) \<noteq> [] \<and>
   snd (loadFile failed_load) \<noteq> None \<and>
   map_option (\<lambda>(out, c', rest). (out, reload_calls c', world c', rest))
     (WaitForInterrupt no_logger_command [SighupCh failed_load, ShutdownCh None]) =
     Some (Panic, [], [], [ShutdownCh None])"
  by (simp add: no_logger_command_def config_path_command_def failed_load_def example_defs
        handle_sighup_def reload_config_def log_or_panic_def logger_call_def ui_Output_def)

section \<open>Properties of Run\<close>

lemma handle_shutdown_frame:
  "handle_shutdown r c = Inl c' \<or> handle_shutdown r c = Inr c' \<Longrightarrow>
     Config c' = Config c \<and> shutdown_run c' = shutdown_run c \<and> Server c' = Server c"
  by (auto simp: handle_shutdown_def Controller_Shutdown_def ui_Output_def ui_Error_def Let_def
           split: option.splits)

text \<open>The event loop writes neither the configuration nor the shutdown functions.\<close>

lemma WaitForInterrupt_frame:
  "WaitForInterrupt c evs = Some (out, c', rest) \<Longrightarrow>
     Config c' = Config c \<and> shutdown_run c' = shutdown_run c \<and>
     ShutdownFuncs (Server c') = ShutdownFuncs (Server c)"
proof (induction c evs rule: WaitForInterrupt.induct)
  case (1 c)
  then show ?case by simp
next
  case (2 c r evs)
  then show ?case
    using handle_shutdown_frame[of r c c'] by (auto split: sum.splits)
next
  case (3 c env evs)
  show ?case
  proof (cases "handle_sighup env c")
    case (Inl c1)
    with 3(2) have "c' = c1" by simp
    with Inl handle_sighup_loop_frame[of env c c1] show ?thesis by (simp add: loop_frame_def)
  next
    case (Inr c1)
    with 3(2) have "WaitForInterrupt c1 evs = Some (out, c', rest)" by simp
    from 3(1)[OF Inr this] Inr handle_sighup_loop_frame[of env c c1] show ?thesis
      by (simp add: loop_frame_def)
  qed
next
  case (4 c stack evs)
  show ?case
  proof (cases "handle_sigusr2 stack c")
    case (Inl c1)
    with 4(2) have "c' = c1" by simp
    with Inl handle_sigusr2_loop_frame[of stack c c1] show ?thesis by (simp add: loop_frame_def)
  next
    case (Inr c1)
    with 4(2) have "WaitForInterrupt c1 evs = Some (out, c', rest)" by simp
    from 4(1)[OF Inr this] Inr handle_sigusr2_loop_frame[of stack c c1] show ?thesis
      by (simp add: loop_frame_def)
  qed
qed

lemma Start_frame:
  "Start env c = Inl c' \<or> Start env c = Inr (e, c') \<Longrightarrow>
     Config c' = Config c \<and> shutdown_run c' = shutdown_run c \<and>
     ShutdownFuncs (Server c') = ShutdownFuncs (Server c)"
  by (auto simp: Start_def New_def Controller_Start_def Controller_Shutdown_def ui_Error_def
                 Let_def
           split: option.splits sum.splits prod.splits if_splits)

text \<open>When \<open>Start\<close> returns no error the command has its controller: \<open>Run\<close> enters the
  event loop with it.\<close>

lemma Start_sets_controller:
  "Start env c = Inr (None, c') \<Longrightarrow> \<exists>ctl. controller c' = Some ctl"
  by (auto simp: Start_def New_def Controller_Start_def Controller_Shutdown_def Let_def
           split: option.splits sum.splits prod.splits if_splits)

lemma RunShutdownFuncs_frame:
  "Config (RunShutdownFuncs c) = Config c"
  "ShutdownFuncs (Server (RunShutdownFuncs c)) = ShutdownFuncs (Server c)"
  "shutdown_run (RunShutdownFuncs c) = shutdown_run c @ ShutdownFuncs (Server c)"
  by (simp_all add: RunShutdownFuncs_def)

lemma run_stage_frame:
  "run_stage st cfg c = (e, c') \<Longrightarrow>
     shutdown_run c' = shutdown_run c \<and> Config c' = Config c \<and> flags c' = flags c"
  by (auto simp: run_stage_def split: prod.splits)

text \<open>What each part of the startup leaves as it was.\<close>

lemma Run_parse_frame:
  assumes "Run_parse env args c0 = Inl (out, c) \<or> Run_parse env args c0 = Inr c"
  shows "shutdown_run c = shutdown_run c0 \<and>
         flagDev (flags c) = flagDev (fst (env_Parse env args (flags c0))) \<and>
         (Config c = Config c0 \<or>
          Config c = loaded_config env (fst (env_Parse env args (flags c0))) \<or>
          (\<exists>cfg. flagDev (fst (env_Parse env args (flags c0))) \<and>
                 loaded_config env (fst (env_Parse env args (flags c0))) = Some cfg \<and>
                 Config c = Some (cfg\<lparr>Listeners :=
                    map (dev_listen_address (fst (env_Parse env args (flags c0)))) (Listeners cfg)\<rparr>)))"
  using assms
  unfolding Run_parse_def ParseFlagsAndConfig_def loaded_config_def Let_def
  by (auto simp: ui_Error_def ui_Warn_def split: prod.splits option.splits if_splits)

lemma Run_setup_frame:
  "Run_setup env c = Inl (out, c') \<or> Run_setup env c = Inr c' \<Longrightarrow>
     shutdown_run c' = shutdown_run c \<and> flags c' = flags c \<and> Config c' = Config c"
  unfolding Run_setup_def Let_def
  by (auto split: prod.splits option.splits if_splits dest!: run_stage_frame
           simp: ui_Error_def ui_Warn_def)

lemma Run_validate_frame:
  "Run_validate c = Inl (out, c') \<or> Run_validate c = Inr c' \<Longrightarrow>
     shutdown_run c' = shutdown_run c \<and> flags c' = flags c \<and>
     (Config c' = Config c \<or>
      (\<exists>cfg. Config c = Some cfg \<and>
         Config c' = Some (cfg\<lparr>Listeners := fst (validate_listeners (Listeners cfg))\<rparr>)))"
  unfolding Run_validate_def
  by (auto split: prod.splits option.splits simp: ui_Error_def)

lemma Run_listen_frame:
  "Run_listen env c = Inl (out, c') \<or> Run_listen env c = Inr c' \<Longrightarrow>
     shutdown_run c' = shutdown_run c \<and> flags c' = flags c \<and> Config c' = Config c"
  unfolding Run_listen_def
  by (auto split: prod.splits option.splits if_splits dest!: run_stage_frame
           simp: ui_Error_def)

lemma Run_listen_dev:
  "Run_listen env c = Inr c' \<Longrightarrow> flagDev (flags c') \<Longrightarrow>
     DestroyDevDatabase \<in> set (ShutdownFuncs (Server c'))"
  unfolding Run_listen_def
  by (auto split: prod.splits option.splits if_splits dest!: run_stage_frame)

text \<open>
  The startup as a chain: the command it ends with has gone through the parts up to
  the one that returned.
\<close>

lemma Run_startup_chain:
  assumes "Run_startup env args c0 = Inl (out, c) \<or> Run_startup env args c0 = Inr c"
  shows "\<exists>c1. (Run_parse env args c0 = Inl (out, c1) \<or> Run_parse env args c0 = Inr c1) \<and>
           (c = c1 \<or>
            (\<exists>c2. Run_parse env args c0 = Inr c1 \<and>
               (Run_setup env c1 = Inl (out, c2) \<or> Run_setup env c1 = Inr c2) \<and>
               (c = c2 \<or>
                (\<exists>c3. Run_setup env c1 = Inr c2 \<and>
                   (Run_validate c2 = Inl (out, c3) \<or> Run_validate c2 = Inr c3) \<and>
                   (c = c3 \<or>
                    Run_validate c2 = Inr c3 \<and>
                    (Run_listen env c3 = Inl (out, c) \<or>
                     Run_listen env c3 = Inr c \<and> Run_startup env args c0 = Inr c))))))"
proof (cases "Run_parse env args c0")
  case (Inl r)
  with assms show ?thesis by (auto simp: Run_startup_def)
next
  case p: (Inr c1)
  show ?thesis
  proof (cases "Run_setup env c1")
    case (Inl r)
    with assms p show ?thesis by (auto simp: Run_startup_def)
  next
    case s: (Inr c2)
    show ?thesis
    proof (cases "Run_validate c2")
      case (Inl r)
      with assms p s show ?thesis by (auto simp: Run_startup_def)
    next
      case v: (Inr c3)
      from assms p s v have "Run_listen env c3 = Inl (out, c) \<or>
          Run_listen env c3 = Inr c \<and> Run_startup env args c0 = Inr c"
        by (auto simp: Run_startup_def)
      with p s v show ?thesis by blast
    qed
  qed
qed

lemma Run_startup_shutdown_run:
  assumes "Run_startup env args c0 = Inl (out, c) \<or> Run_startup env args c0 = Inr c"
  shows "shutdown_run c = shutdown_run c0"
proof -
  from Run_startup_chain[OF assms] obtain c1 where
    1: "Run_parse env args c0 = Inl (out, c1) \<or> Run_parse env args c0 = Inr c1"
    and r1: "c = c1 \<or>
            (\<exists>c2. (Run_setup env c1 = Inl (out, c2) \<or> Run_setup env c1 = Inr c2) \<and>
               (c = c2 \<or>
                (\<exists>c3. (Run_validate c2 = Inl (out, c3) \<or> Run_validate c2 = Inr c3) \<and>
                   (c = c3 \<or> Run_listen env c3 = Inl (out, c) \<or> Run_listen env c3 = Inr c))))"
    by blast
  from Run_parse_frame[OF 1] have f1: "shutdown_run c1 = shutdown_run c0" by blast
  from r1 show ?thesis
  proof
    assume "c = c1" with f1 show ?thesis by simp
  next
    assume "\<exists>c2. (Run_setup env c1 = Inl (out, c2) \<or> Run_setup env c1 = Inr c2) \<and>
               (c = c2 \<or>
                (\<exists>c3. (Run_validate c2 = Inl (out, c3) \<or> Run_validate c2 = Inr c3) \<and>
                   (c = c3 \<or> Run_listen env c3 = Inl (out, c) \<or> Run_listen env c3 = Inr c)))"
    then obtain c2 where
      2: "Run_setup env c1 = Inl (out, c2) \<or> Run_setup env c1 = Inr c2"
      and r2: "c = c2 \<or>
                (\<exists>c3. (Run_validate c2 = Inl (out, c3) \<or> Run_validate c2 = Inr c3) \<and>
                   (c = c3 \<or> Run_listen env c3 = Inl (out, c) \<or> Run_listen env c3 = Inr c))"
      by blast
    from Run_setup_frame[OF 2] f1 have f2: "shutdown_run c2 = shutdown_run c0" by simp
    from r2 show ?thesis
    proof
      assume "c = c2" with f2 show ?thesis by simp
    next
      assume "\<exists>c3. (Run_validate c2 = Inl (out, c3) \<or> Run_validate c2 = Inr c3) \<and>
                   (c = c3 \<or> Run_listen env c3 = Inl (out, c) \<or> Run_listen env c3 = Inr c)"
      then obtain c3 where
        3: "Run_validate c2 = Inl (out, c3) \<or> Run_validate c2 = Inr c3"
        and r3: "c = c3 \<or> Run_listen env c3 = Inl (out, c) \<or> Run_listen env c3 = Inr c"
        by blast
      from Run_validate_frame[OF 3] f2 have f3: "shutdown_run c3 = shutdown_run c0" by simp
      from r3 show ?thesis
      proof
        assume "c = c3" with f3 show ?thesis by simp
      next
        assume "Run_listen env c3 = Inl (out, c) \<or> Run_listen env c3 = Inr c"
        from Run_listen_frame[OF this] f3 show ?thesis by simp
      qed
    qed
  qed
qed

lemma Run_startup_dev:
  assumes "Run_startup env args c0 = Inr c" and "flagDev (flags c)"
  shows "DestroyDevDatabase \<in> set (ShutdownFuncs (Server c))"
proof -
  from assms(1) obtain c3 where "Run_listen env c3 = Inr c"
    by (auto simp: Run_startup_def split: sum.splits)
  from Run_listen_dev[OF this assms(2)] show ?thesis .
qed

text \<open>
  Claim C2, as amended. Take a call of \<open>Run\<close> that returns. When the startup ends before
  the \<open>defer\<close> statement (a stage fails, \<open>Run\<close> returns its code at once), no shutdown
  function is run. When the startup reaches the \<open>defer\<close> statement, every function
  registered in \<open>ShutdownFuncs\<close> has been run when \<open>Run\<close> returns, whether \<open>Start\<close> failed or
  the event loop was entered and ended; in development mode these functions include the
  teardown of the development database.
\<close>

theorem Run_runs_shutdown_funcs_after_defer:
  assumes "Run env args c0 = Some (out, c')"
  shows "case Run_startup env args c0 of
           Inl (out1, c1) \<Rightarrow> out = out1 \<and> c' = c1 \<and> shutdown_run c' = shutdown_run c0
         | Inr c1 \<Rightarrow>
             shutdown_run c' = shutdown_run c0 @ ShutdownFuncs (Server c1) \<and>
             ShutdownFuncs (Server c') = ShutdownFuncs (Server c1) \<and>
             (flagDev (flags c1) \<longrightarrow> DestroyDevDatabase \<in> set (shutdown_run c'))"
proof (cases "Run_startup env args c0")
  case (Inl p)
  obtain out1 c1 where p: "p = (out1, c1)" by (cases p)
  from Inl p assms have "out = out1" "c' = c1" by (simp_all add: Run_def)
  moreover from Inl p have "shutdown_run c1 = shutdown_run c0"
    using Run_startup_shutdown_run[of env args c0 out1 c1] by simp
  ultimately show ?thesis using Inl p by simp
next
  case (Inr c1)
  then have s: "shutdown_run c1 = shutdown_run c0"
    using Run_startup_shutdown_run[of env args c0 out c1] by simp
  have "shutdown_run c' = shutdown_run c1 @ ShutdownFuncs (Server c1) \<and>
        ShutdownFuncs (Server c') = ShutdownFuncs (Server c1)"
  proof (cases "Start env c1")
    case (Inl c2)
    with Inr assms have "c' = RunShutdownFuncs c2" by (simp add: Run_def)
    with Start_frame[of env c1 c2] Inl show ?thesis by (simp add: RunShutdownFuncs_frame)
  next
    case st: (Inr q)
    obtain e c2 where q: "q = (e, c2)" by (cases q)
    from Start_frame[of env c1 c2 e] st q have f2:
      "shutdown_run c2 = shutdown_run c1" "ShutdownFuncs (Server c2) = ShutdownFuncs (Server c1)"
      by simp_all
    show ?thesis
    proof (cases e)
      case (Some err)
      with Inr st q assms have "c' = RunShutdownFuncs (ui_Error err c2)" by (simp add: Run_def)
      with f2 show ?thesis by (simp add: RunShutdownFuncs_def ui_Error_def)
    next
      case None
      with Inr st q assms obtain out3 c3 rest where
        w: "WaitForInterrupt c2 (env_events env) = Some (out3, c3, rest)"
        and c': "c' = RunShutdownFuncs c3"
        by (auto simp: Run_def split: option.splits)
      from WaitForInterrupt_frame[OF w] f2 c' show ?thesis
        by (simp add: RunShutdownFuncs_frame)
    qed
  qed
  with s Inr Run_startup_dev[OF Inr] show ?thesis by auto
qed

lemma example_Run_startup:
  "\<exists>c1. Run_startup example_env [] new_command = Inr c1 \<and> flagDev (flags c1) \<and>
         ShutdownFuncs (Server c1) = [ExternalShutdownFunc ''remove PID file'', DestroyDevDatabase]"
  by (simp add: example_env_def new_command_def dev_config_def example_flags_def
        Run_startup_def Run_parse_def Run_setup_def Run_validate_def Run_listen_def
        ParseFlagsAndConfig_def run_stage_def validate_listeners_def
        check_listener_def purpose_case_2_def dev_listen_address_def Let_def)

lemmas run_defs = Run_def Run_startup_def Run_parse_def Run_setup_def Run_validate_def
  Run_listen_def ParseFlagsAndConfig_def run_stage_def
  validate_listeners_def check_listener_def purpose_case_2_def dev_listen_address_def
  Start_def New_def Controller_Start_def Controller_Shutdown_def RunShutdownFuncs_def
  handle_shutdown_def ui_Output_def ui_Error_def ui_Warn_def Let_def

lemma example_Run:
  "\<exists>c'. Run example_env [] new_command = Some (Exit 0, c') \<and>
      map_option Listeners (Config c') =
         Some [\<lparr>Address = ''127.0.0.1:9300'', Purpose = [''api''], TLSDisable = True\<rparr>,
               \<lparr>Address = ''127.0.0.1:9201'', Purpose = [''cluster''], TLSDisable = True\<rparr>,
               \<lparr>Address = ''127.0.0.1:9202'', Purpose = [''api'', ''cluster''], TLSDisable = False\<rparr>]"
  by (simp add: example_env_def new_command_def dev_config_def example_flags_def run_defs)

theorem Run_runs_shutdown_funcs_after_defer_witness:
  "\<exists>c'. Run example_env [] new_command = Some (Exit 0, c') \<and>
         shutdown_run c' = [ExternalShutdownFunc ''remove PID file'', DestroyDevDatabase] \<and>
         DestroyDevDatabase \<in> set (shutdown_run c')"
proof -
  from example_Run obtain c' where r: "Run example_env [] new_command = Some (Exit 0, c')"
    by blast
  from example_Run_startup obtain c1 where
    s: "Run_startup example_env [] new_command = Inr c1" and d: "flagDev (flags c1)"
    and f: "ShutdownFuncs (Server c1) =
              [ExternalShutdownFunc ''remove PID file'', DestroyDevDatabase]" by blast
  have n: "shutdown_run new_command = []" by (simp add: new_command_def)
  have t: "shutdown_run c' = shutdown_run new_command @ ShutdownFuncs (Server c1) \<and>
        ShutdownFuncs (Server c') = ShutdownFuncs (Server c1) \<and>
        (flagDev (flags c1) \<longrightarrow> DestroyDevDatabase \<in> set (shutdown_run c'))"
    by (rule Run_runs_shutdown_funcs_after_defer[OF r, unfolded s sum.case])
  from t have a: "shutdown_run c' = [ExternalShutdownFunc ''remove PID file'', DestroyDevDatabase]"
    unfolding n f by simp
  from t d have b: "DestroyDevDatabase \<in> set (shutdown_run c')" by (elim conjE) (rule mp)
  from r a b show ?thesis by (intro exI[of _ c'] conjI)
qed

text \<open>
  Claim C2 as stated fails. In the run of \<open>failing_env\<close>, \<open>StorePidFile\<close> has registered
  a shutdown function when the creation of the development database fails: \<open>Run\<close> returns 1
  with the function still registered and no shutdown function run.
\<close>

theorem Run_early_return_counterexample:
  "map_option (\<lambda>(out, c). (out, ShutdownFuncs (Server c), shutdown_run c))
     (Run failing_env [] new_command) =
   Some (Exit 1, [ExternalShutdownFunc ''remove PID file''], [])"
  by (simp add: failing_env_def example_env_def new_command_def dev_config_def
        example_flags_def run_defs)

lemma check_listener_fst:
  "fst (check_listener ln found) = ln \<or>
   Purpose ln = [] \<and> fst (check_listener ln found) = ln\<lparr>Purpose := [''api'', ''cluster'']\<rparr>"
  by (auto simp: check_listener_def Let_def)

lemma check_listeners_kept:
  "list_all2 (listener_kept fl) lns (fst (check_listeners lns found))"
proof (induction lns arbitrary: found)
  case Nil
  show ?case by simp
next
  case (Cons a lns)
  have refl: "list_all2 (listener_kept fl) lns lns"
    by (simp add: list_all2_same listener_kept_def)
  have h: "listener_kept fl a (fst (check_listener a found))"
    using check_listener_fst[of a found] by (auto simp: listener_kept_def)
  show ?case
  proof (cases "check_listener a found")
    case (Pair a' r)
    with h have h': "listener_kept fl a a'" by simp
    show ?thesis
    proof (cases r)
      case (Inl e)
      with Pair h' refl show ?thesis by simp
    next
      case (Inr found')
      with Pair h' Cons[of found'] show ?thesis by (auto split: prod.splits)
    qed
  qed
qed

lemma validate_listeners_fst:
  "fst (validate_listeners lns) = fst (check_listeners lns (False, False))"
  by (auto simp: validate_listeners_def split: prod.splits sum.splits)

lemma validate_listeners_kept:
  "list_all2 (listener_kept fl) lns (fst (validate_listeners lns))"
  by (simp add: validate_listeners_fst check_listeners_kept)

lemma dev_then_validate_kept:
  assumes "flagDev fl"
  shows "listener_kept fl l (fst (check_listener (dev_listen_address fl l) found))"
proof (cases "dev_listen_address fl l = l")
  case True
  then show ?thesis using check_listener_fst[of l found] by (auto simp: listener_kept_def)
next
  case False
  then have 1: "length (Purpose l) = 1" by (auto simp: dev_listen_address_def split: if_splits)
  then obtain p where p: "Purpose l = [p]" by (cases "Purpose l") auto
  from False p assms have k: "listener_kept fl l (dev_listen_address fl l)"
    by (auto simp: dev_listen_address_def listener_kept_def split: if_splits)
  from p have "Purpose (dev_listen_address fl l) = [p]"
    by (auto simp: dev_listen_address_def)
  then have "fst (check_listener (dev_listen_address fl l) found) = dev_listen_address fl l"
    using check_listener_fst[of "dev_listen_address fl l" found] by auto
  with k show ?thesis by simp
qed

lemma dev_kept:
  "flagDev fl \<Longrightarrow> listener_kept fl l (dev_listen_address fl l)"
  by (cases "Purpose l"; cases "tl (Purpose l)")
     (auto simp: dev_listen_address_def listener_kept_def)

lemma check_listeners_dev_kept:
  assumes "flagDev fl"
  shows "list_all2 (listener_kept fl) lns
           (fst (check_listeners (map (dev_listen_address fl) lns) found))"
proof (induction lns arbitrary: found)
  case Nil
  show ?case by simp
next
  case (Cons a lns)
  have rest: "list_all2 (listener_kept fl) lns (map (dev_listen_address fl) lns)"
    using assms by (simp add: list_all2_map2 list_all2_same dev_kept)
  have h: "listener_kept fl a (fst (check_listener (dev_listen_address fl a) found))"
    using assms by (rule dev_then_validate_kept)
  show ?case
  proof (cases "check_listener (dev_listen_address fl a) found")
    case (Pair a' r)
    with h have h': "listener_kept fl a a'" by simp
    show ?thesis
    proof (cases r)
      case (Inl e)
      with Pair h' rest show ?thesis by simp
    next
      case (Inr found')
      with Pair h' Cons[of found'] show ?thesis by (auto split: prod.splits)
    qed
  qed
qed

lemma config_kept_refl: "config_kept fl cfg cfg"
  by (simp add: config_kept_def list_all2_same listener_kept_def)

lemma config_kept_validate:
  "config_kept fl cfg (cfg\<lparr>Listeners := fst (validate_listeners (Listeners cfg))\<rparr>)"
  by (simp add: config_kept_def validate_listeners_kept)

lemma config_kept_dev:
  "flagDev fl \<Longrightarrow>
     config_kept fl cfg (cfg\<lparr>Listeners := map (dev_listen_address fl) (Listeners cfg)\<rparr>)"
  by (simp add: config_kept_def list_all2_map2 list_all2_same dev_kept)

lemma config_kept_dev_validate:
  "flagDev fl \<Longrightarrow>
     config_kept fl cfg
       (cfg\<lparr>Listeners :=
          fst (validate_listeners (map (dev_listen_address fl) (Listeners cfg)))\<rparr>)"
  by (simp add: config_kept_def validate_listeners_fst check_listeners_dev_kept)

lemma Run_parse_Inr:
  assumes "Run_parse env args c0 = Inr c"
  shows "Config c = loaded_config env (fst (env_Parse env args (flags c0))) \<and>
           \<not> flagDev (fst (env_Parse env args (flags c0))) \<or>
         (\<exists>cfg. flagDev (fst (env_Parse env args (flags c0))) \<and>
                 loaded_config env (fst (env_Parse env args (flags c0))) = Some cfg \<and>
                 Config c = Some (cfg\<lparr>Listeners :=
                    map (dev_listen_address (fst (env_Parse env args (flags c0)))) (Listeners cfg)\<rparr>))"
  using assms
  unfolding Run_parse_def ParseFlagsAndConfig_def loaded_config_def Let_def
  by (auto simp: ui_Error_def ui_Warn_def split: prod.splits option.splits if_splits)

text \<open>The configuration when the startup ends, against the configuration loaded.\<close>

lemma Run_startup_Config:
  assumes "Run_startup env args c0 = Inl (out, c) \<or> Run_startup env args c0 = Inr c"
  shows "Config c = Config c0 \<or>
         Config c = loaded_config env (fst (env_Parse env args (flags c0))) \<or>
         (\<exists>cfg cfg'. loaded_config env (fst (env_Parse env args (flags c0))) = Some cfg \<and>
            Config c = Some cfg' \<and> config_kept (fst (env_Parse env args (flags c0))) cfg cfg')"
proof -
  let ?fl = "fst (env_Parse env args (flags c0))"
  let ?P = "\<lambda>C. C = Config c0 \<or> C = loaded_config env ?fl \<or>
         (\<exists>cfg cfg'. loaded_config env ?fl = Some cfg \<and> C = Some cfg' \<and> config_kept ?fl cfg cfg')"
  from Run_startup_chain[OF assms] obtain c1 where
    1: "Run_parse env args c0 = Inl (out, c1) \<or> Run_parse env args c0 = Inr c1"
    and r1: "c = c1 \<or>
            (\<exists>c2. Run_parse env args c0 = Inr c1 \<and>
               (Run_setup env c1 = Inl (out, c2) \<or> Run_setup env c1 = Inr c2) \<and>
               (c = c2 \<or>
                (\<exists>c3. (Run_validate c2 = Inl (out, c3) \<or> Run_validate c2 = Inr c3) \<and>
                   (c = c3 \<or> Run_listen env c3 = Inl (out, c) \<or> Run_listen env c3 = Inr c))))"
    by blast
  from Run_parse_frame[OF 1] have k1:
    "Config c1 = Config c0 \<or> Config c1 = loaded_config env ?fl \<or>
          (\<exists>cfg. flagDev ?fl \<and> loaded_config env ?fl = Some cfg \<and>
                 Config c1 = Some (cfg\<lparr>Listeners := map (dev_listen_address ?fl) (Listeners cfg)\<rparr>))"
    by blast
  then have p1: "?P (Config c1)" using config_kept_dev[of ?fl] by blast
  from r1 show ?thesis
  proof
    assume "c = c1" with p1 show ?thesis by simp
  next
    assume "\<exists>c2. Run_parse env args c0 = Inr c1 \<and>
               (Run_setup env c1 = Inl (out, c2) \<or> Run_setup env c1 = Inr c2) \<and>
               (c = c2 \<or>
                (\<exists>c3. (Run_validate c2 = Inl (out, c3) \<or> Run_validate c2 = Inr c3) \<and>
                   (c = c3 \<or> Run_listen env c3 = Inl (out, c) \<or> Run_listen env c3 = Inr c)))"
    then obtain c2 where
      ok: "Run_parse env args c0 = Inr c1"
      and 2: "Run_setup env c1 = Inl (out, c2) \<or> Run_setup env c1 = Inr c2"
      and r2: "c = c2 \<or>
                (\<exists>c3. (Run_validate c2 = Inl (out, c3) \<or> Run_validate c2 = Inr c3) \<and>
                   (c = c3 \<or> Run_listen env c3 = Inl (out, c) \<or> Run_listen env c3 = Inr c))"
      by blast
    text \<open>the validation of the configuration of \<open>c1\<close>\<close>
    have pv: "?P (Some (cfg1\<lparr>Listeners := fst (validate_listeners (Listeners cfg1))\<rparr>))"
      if c1: "Config c1 = Some cfg1" for cfg1
      using Run_parse_Inr[OF ok]
    proof
      assume "Config c1 = loaded_config env ?fl \<and> \<not> flagDev ?fl"
      with c1 have "loaded_config env ?fl = Some cfg1" by simp
      with config_kept_validate[of ?fl cfg1] show ?thesis by blast
    next
      assume "\<exists>cfg. flagDev ?fl \<and> loaded_config env ?fl = Some cfg \<and>
                 Config c1 = Some (cfg\<lparr>Listeners := map (dev_listen_address ?fl) (Listeners cfg)\<rparr>)"
      then obtain cfg where d: "flagDev ?fl" and l: "loaded_config env ?fl = Some cfg"
        and e: "Config c1 = Some (cfg\<lparr>Listeners := map (dev_listen_address ?fl) (Listeners cfg)\<rparr>)"
        by blast
      from e c1 have "cfg1 = cfg\<lparr>Listeners := map (dev_listen_address ?fl) (Listeners cfg)\<rparr>"
        by simp
      then have "cfg1\<lparr>Listeners := fst (validate_listeners (Listeners cfg1))\<rparr> =
                 cfg\<lparr>Listeners := fst (validate_listeners (map (dev_listen_address ?fl) (Listeners cfg)))\<rparr>"
        by simp
      with config_kept_dev_validate[OF d, of cfg] l show ?thesis by auto
    qed
    from Run_setup_frame[OF 2] have e2: "Config c2 = Config c1" by simp
    from r2 show ?thesis
    proof
      assume "c = c2" with p1 e2 show ?thesis by simp
    next
      assume "\<exists>c3. (Run_validate c2 = Inl (out, c3) \<or> Run_validate c2 = Inr c3) \<and>
                   (c = c3 \<or> Run_listen env c3 = Inl (out, c) \<or> Run_listen env c3 = Inr c)"
      then obtain c3 where
        3: "Run_validate c2 = Inl (out, c3) \<or> Run_validate c2 = Inr c3"
        and r3: "c = c3 \<or> Run_listen env c3 = Inl (out, c) \<or> Run_listen env c3 = Inr c"
        by blast
      from Run_validate_frame[OF 3] e2 have k3:
        "Config c3 = Config c1 \<or>
         (\<exists>cfg1. Config c1 = Some cfg1 \<and>
            Config c3 = Some (cfg1\<lparr>Listeners := fst (validate_listeners (Listeners cfg1))\<rparr>))"
        by simp
      have p3: "?P (Config c3)"
      proof (cases "Config c3 = Config c1")
        case True
        with p1 show ?thesis by simp
      next
        case False
        with k3 obtain cfg1 where c1: "Config c1 = Some cfg1"
          and c3: "Config c3 = Some (cfg1\<lparr>Listeners := fst (validate_listeners (Listeners cfg1))\<rparr>)"
          by blast
        from pv[OF c1] c3 show ?thesis by simp
      qed
      from r3 show ?thesis
      proof
        assume "c = c3" with p3 show ?thesis by simp
      next
        assume "Run_listen env c3 = Inl (out, c) \<or> Run_listen env c3 = Inr c"
        from Run_listen_frame[OF this] p3 show ?thesis by simp
      qed
    qed
  qed
qed

text \<open>
  Claim C8, as amended. The configuration that \<open>Run\<close> leaves in the command is the one
  the command had (when the flags do not parse or name no file), or the one the loader
  returned, or the loaded one with nothing changed but its listeners, each listener kept
  as \<open>listener_kept\<close> says: \<open>TLSDisable\<close> is never written; a purpose list is written only
  when it is empty and then becomes \<open>api\<close>, \<open>cluster\<close>; an address is written only in
  development mode, for a listener with the single purpose \<open>api\<close> or \<open>cluster\<close>, from the
  matching flag. The event loop does not write the configuration: a reload reads the
  \<open>LogLevel\<close> of the configuration it loads and keeps neither.
\<close>

theorem Run_keeps_config:
  "(Run env args c0 = Some (out, c') \<longrightarrow>
      Config c' = Config c0 \<or>
      Config c' = loaded_config env (fst (env_Parse env args (flags c0))) \<or>
      (\<exists>cfg cfg'. loaded_config env (fst (env_Parse env args (flags c0))) = Some cfg \<and>
         Config c' = Some cfg' \<and> config_kept (fst (env_Parse env args (flags c0))) cfg cfg')) \<and>
   (WaitForInterrupt c evs = Some (out2, c2, rest) \<longrightarrow> Config c2 = Config c)"
proof (intro conjI impI)
  assume w: "WaitForInterrupt c evs = Some (out2, c2, rest)"
  from WaitForInterrupt_frame[OF w] show "Config c2 = Config c" by simp
next
  assume r: "Run env args c0 = Some (out, c')"
  let ?fl = "fst (env_Parse env args (flags c0))"
  let ?P = "\<lambda>C. C = Config c0 \<or> C = loaded_config env ?fl \<or>
         (\<exists>cfg cfg'. loaded_config env ?fl = Some cfg \<and> C = Some cfg' \<and> config_kept ?fl cfg cfg')"
  show "?P (Config c')"
  proof (cases "Run_startup env args c0")
    case (Inl p)
    obtain out1 c1 where p: "p = (out1, c1)" by (cases p)
    from Inl p r have "c' = c1" by (simp add: Run_def)
    with Run_startup_Config[of env args c0 out1 c1] Inl p show ?thesis by simp
  next
    case (Inr c1)
    with Run_startup_Config[of env args c0 out c1] have p1: "?P (Config c1)" by simp
    have "Config c' = Config c1"
    proof (cases "Start env c1")
      case (Inl c2)
      with Inr r have "c' = RunShutdownFuncs c2" by (simp add: Run_def)
      with Start_frame[of env c1 c2] Inl show ?thesis by (simp add: RunShutdownFuncs_frame)
    next
      case st: (Inr q)
      obtain e c2 where q: "q = (e, c2)" by (cases q)
      from Start_frame[of env c1 c2 e] st q have f2: "Config c2 = Config c1" by simp
      show ?thesis
      proof (cases e)
        case (Some err)
        with Inr st q r have "c' = RunShutdownFuncs (ui_Error err c2)" by (simp add: Run_def)
        with f2 show ?thesis by (simp add: RunShutdownFuncs_def ui_Error_def)
      next
        case None
        with Inr st q r obtain out3 c3 rest3 where
          w: "WaitForInterrupt c2 (env_events env) = Some (out3, c3, rest3)"
          and c': "c' = RunShutdownFuncs c3"
          by (auto simp: Run_def split: option.splits)
        from WaitForInterrupt_frame[OF w] f2 c' show ?thesis
          by (simp add: RunShutdownFuncs_frame)
      qed
    qed
    with p1 show ?thesis by simp
  qed
qed

lemma example_loaded:
  "loaded_config example_env (fst (env_Parse example_env [] (flags new_command))) = Some dev_config"
  by (simp add: loaded_config_def example_env_def)

theorem Run_keeps_config_witness:
  "\<exists>c' cfg'. Run example_env [] new_command = Some (Exit 0, c') \<and> Config c' = Some cfg' \<and>
      config_kept (fst (env_Parse example_env [] (flags new_command))) dev_config cfg' \<and>
      Listeners cfg' =
        [\<lparr>Address = ''127.0.0.1:9300'', Purpose = [''api''], TLSDisable = True\<rparr>,
         \<lparr>Address = ''127.0.0.1:9201'', Purpose = [''cluster''], TLSDisable = True\<rparr>,
         \<lparr>Address = ''127.0.0.1:9202'', Purpose = [''api'', ''cluster''], TLSDisable = False\<rparr>]"
proof -
  let ?fl = "fst (env_Parse example_env [] (flags new_command))"
  let ?lns = "[\<lparr>Address = ''127.0.0.1:9300'', Purpose = [''api''], TLSDisable = True\<rparr>,
         \<lparr>Address = ''127.0.0.1:9201'', Purpose = [''cluster''], TLSDisable = True\<rparr>,
         \<lparr>Address = ''127.0.0.1:9202'', Purpose = [''api'', ''cluster''], TLSDisable = False\<rparr>]"
  from example_Run obtain c' where r: "Run example_env [] new_command = Some (Exit 0, c')"
    and l: "map_option Listeners (Config c') = Some ?lns" by blast
  from l obtain cfg' where c: "Config c' = Some cfg'" and l': "Listeners cfg' = ?lns" by auto
  have n0: "Config c' \<noteq> Config new_command" using c by (simp add: new_command_def)
  have "Listeners dev_config \<noteq> ?lns" by (simp add: dev_config_def)
  with c l' have n1: "Config c' \<noteq> loaded_config example_env ?fl"
    unfolding example_loaded by auto
  from Run_keeps_config[of example_env "[]" new_command "Exit 0" c', THEN conjunct1, THEN mp, OF r]
    n0 n1
  have "\<exists>cfg cfg'. loaded_config example_env ?fl = Some cfg \<and> Config c' = Some cfg' \<and>
          config_kept ?fl cfg cfg'" by blast
  then have "config_kept ?fl dev_config cfg'" unfolding example_loaded c by simp
  with r c l' show ?thesis by blast
qed

text \<open>
  Claim C8 as stated fails: the run of \<open>example_env\<close> changes the address of the \<open>api\<close>
  listener of the loaded configuration and the purpose list of its third listener.
\<close>

theorem Run_writes_listeners_counterexample:
  "loaded_config example_env (fst (env_Parse example_env [] (flags new_command))) =
     Some dev_config \<and>
   map (\<lambda>l. (Address l, Purpose l)) (Listeners dev_config) =
     [(''127.0.0.1:9200'', [''api'']), (''127.0.0.1:9201'', [''cluster'']),
      (''127.0.0.1:9202'', [])] \<and>
   map_option (\<lambda>(out, c). map_option (\<lambda>cfg. map (\<lambda>l. (Address l, Purpose l)) (Listeners cfg))
                           (Config c))
     (Run example_env [] new_command) =
     Some (Some [(''127.0.0.1:9300'', [''api'']), (''127.0.0.1:9201'', [''cluster'']),
                 (''127.0.0.1:9202'', [''api'', ''cluster''])])"
proof -
  have 1: "map (\<lambda>l. (Address l, Purpose l)) (Listeners dev_config) =
     [(''127.0.0.1:9200'', [''api'']), (''127.0.0.1:9201'', [''cluster'']),
      (''127.0.0.1:9202'', [])]" by (simp add: dev_config_def)
  have 2: "map_option (\<lambda>(out, c). map_option (\<lambda>cfg. map (\<lambda>l. (Address l, Purpose l)) (Listeners cfg))
                           (Config c))
     (Run example_env [] new_command) =
     Some (Some [(''127.0.0.1:9300'', [''api'']), (''127.0.0.1:9201'', [''cluster'']),
                 (''127.0.0.1:9202'', [''api'', ''cluster''])])"
    by (simp add: example_env_def new_command_def dev_config_def example_flags_def run_defs)
  from example_loaded 1 2 show ?thesis by (intro conjI)
qed

text \<open>
  A failed validation ends \<open>Run\<close>: when the flags and the configuration have been read
  and the stages up to the KMSes have passed, an error of the listener validation is
  printed and \<open>Run\<close> returns 1. The server is as those stages left it: \<open>SetupListeners\<close> and
  the later stages have not run.
\<close>

theorem validation_failure_returns_1:
  assumes "Run_parse env args c0 = Inr c1" and "Run_setup env c1 = Inr c2"
    and "Config c2 = Some cfg" and "snd (validate_listeners (Listeners cfg)) = Some err"
  shows "Run env args c0 =
           Some (Exit 1,
                 ui_Error err
                   (c2\<lparr>Config :=
                        Some (cfg\<lparr>Listeners := fst (validate_listeners (Listeners cfg))\<rparr>)\<rparr>))"
proof -
  obtain lns r where v: "validate_listeners (Listeners cfg) = (lns, r)"
    by (cases "validate_listeners (Listeners cfg)")
  with assms(4) have r: "r = Some err" by simp
  from assms(1,2,3) v r show ?thesis
    by (simp add: Run_def Run_startup_def Run_validate_def)
qed

theorem validation_failure_returns_1_witness:
  "map_option fst
     (Run (example_env\<lparr>env_DevController :=
             (Some (dev_config\<lparr>Listeners :=
                      [\<lparr>Address = ''127.0.0.1:9200'', Purpose = [''api''], TLSDisable = True\<rparr>]\<rparr>),
              None)\<rparr>) [] new_command) = Some (Exit 1)"
proof -
  let ?env = "example_env\<lparr>env_DevController :=
             (Some (dev_config\<lparr>Listeners :=
                      [\<lparr>Address = ''127.0.0.1:9200'', Purpose = [''api''], TLSDisable = True\<rparr>]\<rparr>),
              None)\<rparr>"
  obtain c1 where 1: "Run_parse ?env [] new_command = Inr c1"
    by (simp add: Run_parse_def ParseFlagsAndConfig_def example_env_def new_command_def
          example_flags_def)
  have "\<exists>c2 cfg. Run_setup ?env c1 = Inr c2 \<and> Config c2 = Some cfg \<and>
          snd (validate_listeners (Listeners cfg)) = Some NoClusterListener"
    using 1
    by (auto simp add: Run_parse_def ParseFlagsAndConfig_def Run_setup_def run_stage_def
          example_env_def new_command_def example_flags_def dev_config_def
          dev_listen_address_def validate_listeners_def check_listener_def Let_def)
  then obtain c2 cfg where 2: "Run_setup ?env c1 = Inr c2" and 3: "Config c2 = Some cfg"
    and 4: "snd (validate_listeners (Listeners cfg)) = Some NoClusterListener" by blast
  from validation_failure_returns_1[OF 1 2 3 4] show ?thesis by simp
qed

end
